theory Spec2Isabelle
  imports Complex_Main "HOL-Library.Word"
begin

section \<open>JavaScript values used by the program\<close>

subsection \<open>Strings\<close>

text \<open>
  A JavaScript string is a sequence of 16-bit code units. String literals of the source
  are written \<open>js ''...''\<close>; the cent sign of the source (U+00A2) is \<open>CENT\<close>.
\<close>

type_synonym jschar = "16 word"
type_synonym jsstring = "jschar list"

definition ch :: "char \<Rightarrow> jschar" where
  "ch c = of_char c"

definition js :: "string \<Rightarrow> jsstring" where
  "js s = map ch s"

definition CENT :: jschar where
  "CENT = 0xA2"

definition LF :: jschar where
  "LF = 0x0A"

definition CR :: jschar where
  "CR = 0x0D"

text \<open>
  The characters removed by \<open>String.prototype.trim\<close>, matched by the regular
  expression class \<open>\s\<close> and skipped by \<open>Number\<close>: ECMAScript's WhiteSpace and
  LineTerminator code points.
\<close>

definition isWhiteSpace :: "jschar \<Rightarrow> bool" where
  "isWhiteSpace c \<longleftrightarrow>
     c = 0x09 \<or> c = 0x0A \<or> c = 0x0B \<or> c = 0x0C \<or> c = 0x0D \<or> c = 0x20 \<or> c = 0xA0 \<or>
     c = 0x1680 \<or> (0x2000 \<le> c \<and> c \<le> 0x200A) \<or> c = 0x2028 \<or> c = 0x2029 \<or>
     c = 0x202F \<or> c = 0x205F \<or> c = 0x3000 \<or> c = 0xFEFF"

definition trimStart :: "jsstring \<Rightarrow> jsstring" where
  "trimStart s = dropWhile isWhiteSpace s"

definition trimEnd :: "jsstring \<Rightarrow> jsstring" where
  "trimEnd s = rev (dropWhile isWhiteSpace (rev s))"

definition trim :: "jsstring \<Rightarrow> jsstring" where
  "trim s = trimEnd (trimStart s)"

text \<open>\<open>s.startsWith(p)\<close> and \<open>s.includes(c)\<close> for a one-character \<open>c\<close>.\<close>

definition startsWith :: "jsstring \<Rightarrow> jsstring \<Rightarrow> bool" where
  "startsWith s p \<longleftrightarrow> take (length p) s = p"

definition includesChar :: "jsstring \<Rightarrow> jschar \<Rightarrow> bool" where
  "includesChar s c \<longleftrightarrow> c \<in> set s"

text \<open>\<open>s.split(c)\<close> for a one-character separator: always at least one field.\<close>

fun split :: "jschar \<Rightarrow> jsstring \<Rightarrow> jsstring list" where
  "split c [] = [[]]"
| "split c (x # xs) =
     (if x = c then [] # split c xs
      else (case split c xs of [] \<Rightarrow> [[x]] | p # ps \<Rightarrow> (x # p) # ps))"

text \<open>
  \<open>s.split(/\r?\n/)\<close>: a field ends at a line feed, or at a carriage return that is
  immediately followed by a line feed.
\<close>

fun splitLines :: "jsstring \<Rightarrow> jsstring list" where
  "splitLines [] = [[]]"
| "splitLines [c] = (if c = LF then [[], []] else [[c]])"
| "splitLines (c # d # cs) =
     (if c = LF then [] # splitLines (d # cs)
      else if c = CR \<and> d = LF then [] # splitLines cs
      else (case splitLines (d # cs) of [] \<Rightarrow> [[c]] | p # ps \<Rightarrow> (c # p) # ps))"

subsection \<open>Numbers\<close>

text \<open>
  A JavaScript number is an IEEE-754 binary64 value. The model keeps the three special
  values and the range of the finite ones, and idealises their precision: a finite
  number is a real, every arithmetic primitive computes the exact real result and then
  passes it through \<open>toDouble\<close>, which sends a result too large for binary64 to an
  infinity and a result too small to zero (round-to-nearest maps exactly the reals of
  magnitude at least \<open>2^1024 - 2^970\<close> to an infinity and those of magnitude at most
  \<open>2^-1075\<close> to zero). Rounding to 53 significant bits is not modelled, and the two
  zeros are identified.
\<close>

datatype jsnum = NaN | PInf | NInf | Fin real

definition overflowBound :: real where
  "overflowBound = 2 ^ 1024 - 2 ^ 970"

definition underflowBound :: real where
  "underflowBound = 1 / 2 ^ 1075"

definition toDouble :: "real \<Rightarrow> jsnum" where
  "toDouble x =
     (if overflowBound \<le> \<bar>x\<bar> then (if 0 < x then PInf else NInf)
      else if \<bar>x\<bar> \<le> underflowBound then Fin 0
      else Fin x)"

fun isFinite :: "jsnum \<Rightarrow> bool" where
  "isFinite (Fin x) = True"
| "isFinite _ = False"

text \<open>The comparison \<open>a > b\<close>: false when either side is NaN.\<close>

fun jgt :: "jsnum \<Rightarrow> jsnum \<Rightarrow> bool" where
  "jgt NaN _ = False"
| "jgt _ NaN = False"
| "jgt (Fin x) (Fin y) = (y < x)"
| "jgt PInf PInf = False"
| "jgt PInf _ = True"
| "jgt NInf _ = False"
| "jgt (Fin x) NInf = True"
| "jgt (Fin x) PInf = False"

fun jneg :: "jsnum \<Rightarrow> jsnum" where
  "jneg NaN = NaN"
| "jneg PInf = NInf"
| "jneg NInf = PInf"
| "jneg (Fin x) = Fin (- x)"

fun jadd :: "jsnum \<Rightarrow> jsnum \<Rightarrow> jsnum" where
  "jadd NaN _ = NaN"
| "jadd _ NaN = NaN"
| "jadd (Fin x) (Fin y) = toDouble (x + y)"
| "jadd PInf NInf = NaN"
| "jadd NInf PInf = NaN"
| "jadd PInf _ = PInf"
| "jadd NInf _ = NInf"
| "jadd (Fin x) b = b"

definition jsub :: "jsnum \<Rightarrow> jsnum \<Rightarrow> jsnum" where
  "jsub a b = jadd a (jneg b)"

text \<open>The infinity whose sign is that of the real \<open>s\<close> (for \<open>s \<noteq> 0\<close>).\<close>

definition infOfSign :: "real \<Rightarrow> jsnum" where
  "infOfSign s = (if 0 < s then PInf else NInf)"

fun jmul :: "jsnum \<Rightarrow> jsnum \<Rightarrow> jsnum" where
  "jmul NaN _ = NaN"
| "jmul _ NaN = NaN"
| "jmul (Fin x) (Fin y) = toDouble (x * y)"
| "jmul (Fin x) PInf = (if x = 0 then NaN else infOfSign x)"
| "jmul (Fin x) NInf = (if x = 0 then NaN else infOfSign (- x))"
| "jmul PInf (Fin y) = (if y = 0 then NaN else infOfSign y)"
| "jmul NInf (Fin y) = (if y = 0 then NaN else infOfSign (- y))"
| "jmul PInf PInf = PInf"
| "jmul PInf NInf = NInf"
| "jmul NInf PInf = NInf"
| "jmul NInf NInf = PInf"

text \<open>
  Division. A zero divisor is taken as \<open>+0\<close>; the program divides only after checking
  that the divisor is not zero (\<open>b !== 0\<close>, \<open>periodCents === 0\<close>) or by the constant
  \<open>Math.LN2\<close>.
\<close>

fun jdiv :: "jsnum \<Rightarrow> jsnum \<Rightarrow> jsnum" where
  "jdiv NaN _ = NaN"
| "jdiv _ NaN = NaN"
| "jdiv (Fin x) (Fin y) =
     (if y = 0 then (if x = 0 then NaN else infOfSign x) else toDouble (x / y))"
| "jdiv (Fin x) _ = Fin 0"
| "jdiv PInf (Fin y) = (if 0 \<le> y then PInf else NInf)"
| "jdiv NInf (Fin y) = (if 0 \<le> y then NInf else PInf)"
| "jdiv _ _ = NaN"

text \<open>
  The remainder operator \<open>%\<close>: the result has the sign of the dividend and is
  \<open>x - y * trunc (x / y)\<close>. It is exact in binary64, so no range step applies.
\<close>

definition trunc :: "real \<Rightarrow> int" where
  "trunc z = (if 0 \<le> z then \<lfloor>z\<rfloor> else \<lceil>z\<rceil>)"

definition fmod :: "real \<Rightarrow> real \<Rightarrow> real" where
  "fmod x y = x - y * of_int (trunc (x / y))"

fun jrem :: "jsnum \<Rightarrow> jsnum \<Rightarrow> jsnum" where
  "jrem NaN _ = NaN"
| "jrem _ NaN = NaN"
| "jrem PInf _ = NaN"
| "jrem NInf _ = NaN"
| "jrem (Fin x) (Fin y) = (if y = 0 then NaN else Fin (fmod x y))"
| "jrem (Fin x) _ = Fin x"

fun Math_log :: "jsnum \<Rightarrow> jsnum" where
  "Math_log NaN = NaN"
| "Math_log PInf = PInf"
| "Math_log NInf = NaN"
| "Math_log (Fin x) = (if x < 0 then NaN else if x = 0 then NInf else toDouble (ln x))"

definition Math_LN2 :: jsnum where
  "Math_LN2 = toDouble (ln 2)"

definition Math_PI :: jsnum where
  "Math_PI = toDouble pi"

fun Math_cos :: "jsnum \<Rightarrow> jsnum" where
  "Math_cos (Fin x) = toDouble (cos x)"
| "Math_cos _ = NaN"

fun Math_sin :: "jsnum \<Rightarrow> jsnum" where
  "Math_sin (Fin x) = toDouble (sin x)"
| "Math_sin _ = NaN"

fun Math_max :: "jsnum \<Rightarrow> jsnum \<Rightarrow> jsnum" where
  "Math_max NaN _ = NaN"
| "Math_max _ NaN = NaN"
| "Math_max a b = (if jgt a b then a else b)"

fun Math_min :: "jsnum \<Rightarrow> jsnum \<Rightarrow> jsnum" where
  "Math_min NaN _ = NaN"
| "Math_min _ NaN = NaN"
| "Math_min a b = (if jgt a b then b else a)"

fun Math_ceil :: "jsnum \<Rightarrow> jsnum" where
  "Math_ceil (Fin x) = Fin (of_int \<lceil>x\<rceil>)"
| "Math_ceil a = a"

fun Math_floor :: "jsnum \<Rightarrow> jsnum" where
  "Math_floor (Fin x) = Fin (of_int \<lfloor>x\<rfloor>)"
| "Math_floor a = a"

subsection \<open>Conversions between strings and numbers\<close>

definition isDigit :: "jschar \<Rightarrow> bool" where
  "isDigit c \<longleftrightarrow> 0x30 \<le> c \<and> c \<le> 0x39"

definition digitVal :: "jschar \<Rightarrow> nat" where
  "digitVal c = unat c - 48"

definition digitsValue :: "jsstring \<Rightarrow> nat" where
  "digitsValue ds = foldl (\<lambda>a c. 10 * a + digitVal c) 0 ds"

text \<open>
  The digits of the non-decimal integer literals \<open>0x..\<close>, \<open>0o..\<close> and \<open>0b..\<close>
  that \<open>Number\<close> accepts: the value of a digit in the given radix, if it is one.
\<close>

definition radixDigit :: "nat \<Rightarrow> jschar \<Rightarrow> nat option" where
  "radixDigit radix c =
     (let v = (if 0x30 \<le> c \<and> c \<le> 0x39 then unat c - 48
               else if 0x61 \<le> c \<and> c \<le> 0x66 then unat c - 87
               else if 0x41 \<le> c \<and> c \<le> 0x46 then unat c - 55
               else 16)
      in if v < radix then Some v else None)"

fun radixValue :: "nat \<Rightarrow> nat \<Rightarrow> jsstring \<Rightarrow> nat option" where
  "radixValue radix acc [] = Some acc"
| "radixValue radix acc (c # cs) =
     (case radixDigit radix c of
        None \<Rightarrow> None
      | Some v \<Rightarrow> radixValue radix (radix * acc + v) cs)"

definition radixLiteral :: "jsstring \<Rightarrow> nat option" where
  "radixLiteral s =
     (case s of
        z # p # d # ds \<Rightarrow>
          if z \<noteq> ch CHR ''0'' then None
          else if p = ch CHR ''x'' \<or> p = ch CHR ''X'' then radixValue 16 0 (d # ds)
          else if p = ch CHR ''o'' \<or> p = ch CHR ''O'' then radixValue 8 0 (d # ds)
          else if p = ch CHR ''b'' \<or> p = ch CHR ''B'' then radixValue 2 0 (d # ds)
          else None
      | _ \<Rightarrow> None)"

text \<open>
  An optional sign in front of a literal: the sign as \<open>1\<close> or \<open>-1\<close>, and the rest.
\<close>

definition scanSign :: "jsstring \<Rightarrow> real \<times> jsstring" where
  "scanSign s =
     (case s of
        [] \<Rightarrow> (1, s)
      | c # r \<Rightarrow> if c = ch CHR ''+'' then (1, r) else if c = ch CHR ''-'' then (-1, r) else (1, s))"

text \<open>
  The exponent part of a decimal literal at the head of a string (\<open>e\<close> or \<open>E\<close>, an
  optional sign, at least one digit): the exponent and the rest, or nothing.
\<close>

definition scanExponent :: "jsstring \<Rightarrow> (int \<times> jsstring) option" where
  "scanExponent s =
     (case s of
        [] \<Rightarrow> None
      | c # r \<Rightarrow>
          if c = ch CHR ''e'' \<or> c = ch CHR ''E'' then
            (let (sg, r') = scanSign r; ds = takeWhile isDigit r' in
             if ds = [] then None
             else Some ((if sg < 0 then - int (digitsValue ds) else int (digitsValue ds)),
                        dropWhile isDigit r'))
          else None)"

definition pow10 :: "int \<Rightarrow> real" where
  "pow10 e = (if 0 \<le> e then 10 ^ nat e else 1 / 10 ^ nat (- e))"

text \<open>
  The longest unsigned decimal literal at the head of a string (digits, an optional
  fraction, an optional exponent; \<open>5.\<close> and \<open>.5\<close> are literals, \<open>.\<close> is not):
  its exact value and the rest of the string.
\<close>

definition scanDecimal :: "jsstring \<Rightarrow> (real \<times> jsstring) option" where
  "scanDecimal s =
     (let ip = takeWhile isDigit s;
          r1 = dropWhile isDigit s;
          dot = (r1 \<noteq> [] \<and> hd r1 = ch CHR ''.'');
          fp = (if dot then takeWhile isDigit (tl r1) else []);
          r2 = (if dot then dropWhile isDigit (tl r1) else r1)
      in if ip = [] \<and> fp = [] then None
         else (let m = real (digitsValue ip) + real (digitsValue fp) / 10 ^ length fp in
               case scanExponent r2 of
                 None \<Rightarrow> Some (m, r2)
               | Some (e, r3) \<Rightarrow> Some (m * pow10 e, r3)))"

text \<open>
  \<open>Number(str)\<close> on a string: surrounding white space is ignored, the empty string is
  \<open>0\<close>, and anything that is not a numeric literal as a whole is \<open>NaN\<close>.
\<close>

definition Number :: "jsstring \<Rightarrow> jsnum" where
  "Number str =
     (let s = trim str in
      if s = [] then Fin 0
      else (case radixLiteral s of
              Some n \<Rightarrow> toDouble (real n)
            | None \<Rightarrow>
                (let (sg, u) = scanSign s in
                 if u = js ''Infinity'' then (if 0 < sg then PInf else NInf)
                 else (case scanDecimal u of
                         None \<Rightarrow> NaN
                       | Some (v, rest) \<Rightarrow> if rest = [] then toDouble (sg * v) else NaN))))"

text \<open>
  \<open>parseFloat(str)\<close>: leading white space is skipped and the longest prefix that is a
  decimal literal is converted; what follows it is ignored.
\<close>

definition parseFloat :: "jsstring \<Rightarrow> jsnum" where
  "parseFloat str =
     (let (sg, u) = scanSign (trimStart str) in
      if startsWith u (js ''Infinity'') then (if 0 < sg then PInf else NInf)
      else (case scanDecimal u of
              None \<Rightarrow> NaN
            | Some (v, rest) \<Rightarrow> toDouble (sg * v)))"

text \<open>
  Number to string. The digits that \<open>Number.prototype.toString\<close> prints for a finite
  number are the shortest that read back as the same binary64 value; they depend on the
  precision that the model does not carry, so the printer of finite numbers is a
  parameter \<open>numToStr\<close> of every function that prints one.
\<close>

definition Number_toString :: "(real \<Rightarrow> jsstring) \<Rightarrow> jsnum \<Rightarrow> jsstring" where
  "Number_toString numToStr a =
     (case a of
        NaN \<Rightarrow> js ''NaN''
      | PInf \<Rightarrow> js ''Infinity''
      | NInf \<Rightarrow> js ''-Infinity''
      | Fin x \<Rightarrow> numToStr x)"

definition digitChar :: "nat \<Rightarrow> jschar" where
  "digitChar d = of_nat (48 + d)"

fun natToDigits :: "nat \<Rightarrow> jsstring" where
  "natToDigits n = (if n < 10 then [digitChar n] else natToDigits (n div 10) @ [digitChar (n mod 10)])"

text \<open>
  \<open>x.toFixed(f)\<close> for \<open>f\<close> from 0 to 100: a number that is not finite or is at least
  \<open>10^21\<close> in magnitude prints as \<open>toString\<close> does; otherwise the integer \<open>n\<close>
  nearest to \<open>\<bar>x\<bar> * 10^f\<close> (the larger of two nearest) is printed with \<open>f\<close> digits
  after the point, behind a minus sign when \<open>x < 0\<close>.
\<close>

definition toFixed :: "(real \<Rightarrow> jsstring) \<Rightarrow> nat \<Rightarrow> jsnum \<Rightarrow> jsstring" where
  "toFixed numToStr f a =
     (case a of
        Fin x \<Rightarrow>
          if 10 ^ 21 \<le> \<bar>x\<bar> then numToStr x
          else (let n = nat \<lfloor>\<bar>x\<bar> * 10 ^ f + 1 / 2\<rfloor>;
                    m = natToDigits n;
                    m' = (if f = 0 then m
                          else (let p = (if length m \<le> f then replicate (f + 1 - length m) (ch CHR ''0'') @ m else m);
                                    k = length p
                                in take (k - f) p @ [ch CHR ''.''] @ drop (k - f) p))
                in if x < 0 then ch CHR ''-'' # m' else m')
      | _ \<Rightarrow> Number_toString numToStr a)"

declare natToDigits.simps [simp del]

section \<open>utils.js\<close>

subsection \<open>Constants\<close>

definition PADDING :: jsnum where "PADDING = Fin 60"
definition MIN_RADIUS :: jsnum where "MIN_RADIUS = Fin 20"
definition MIN_DIMENSION :: jsnum where "MIN_DIMENSION = Fin 400"
definition POINT_RADIUS :: jsnum where "POINT_RADIUS = Fin (52 / 10)"
definition LABEL_DISTANCE :: jsnum where "LABEL_DISTANCE = Fin 35"
definition EXPORT_PADDING :: jsnum where "EXPORT_PADDING = Fin 30"
definition EXPORT_MIN_SIZE :: jsnum where "EXPORT_MIN_SIZE = Fin 300"

text \<open>\<open>const log2 = x => Math.log(x) / Math.LN2\<close>\<close>

definition log2 :: "jsnum \<Rightarrow> jsnum" where
  "log2 x = jdiv (Math_log x) Math_LN2"

subsection \<open>The regular expressions\<close>

text \<open>
  \<open>/[c\<cent>]/ig\<close>: under the flag \<open>i\<close> the class matches \<open>c\<close>, \<open>C\<close> and the cent sign
  (no other code unit has the upper case of one of them).
\<close>

definition isCentsUnit :: "jschar \<Rightarrow> bool" where
  "isCentsUnit c \<longleftrightarrow> c = ch CHR ''c'' \<or> c = ch CHR ''C'' \<or> c = CENT"

text \<open>\<open>s.replace(/[c\<cent>]/ig, '')\<close> and \<open>s.replace(/\s/g, '')\<close>\<close>

definition stripCentsUnit :: "jsstring \<Rightarrow> jsstring" where
  "stripCentsUnit s = filter (\<lambda>c. \<not> isCentsUnit c) s"

definition removeWhiteSpace :: "jsstring \<Rightarrow> jsstring" where
  "removeWhiteSpace s = filter (\<lambda>c. \<not> isWhiteSpace c) s"

text \<open>
  \<open>/^-?\d+(?:\.\d+)?(?:c|\<cent>)?$/i.test(s)\<close>: an optional minus sign, digits, an
  optional fraction (a point and digits), an optional unit, and nothing else.
\<close>

definition centsPattern :: "jsstring \<Rightarrow> bool" where
  "centsPattern s =
     (let s1 = (if s \<noteq> [] \<and> hd s = ch CHR ''-'' then tl s else s);
          r1 = dropWhile isDigit s1;
          r2 = (if r1 \<noteq> [] \<and> hd r1 = ch CHR ''.'' \<and> takeWhile isDigit (tl r1) \<noteq> []
                then dropWhile isDigit (tl r1) else r1)
      in takeWhile isDigit s1 \<noteq> [] \<and> (r2 = [] \<or> (length r2 = 1 \<and> isCentsUnit (hd r2))))"

subsection \<open>parseRatio\<close>

text \<open>The result \<open>null\<close> is \<open>None\<close>.\<close>

definition parseRatio :: "jsstring \<Rightarrow> jsnum option" where
  "parseRatio str =
     (let s = trim str in
      if s = [] then None
      else if includesChar s (ch CHR ''/'') then
        (case map Number (split (ch CHR ''/'') s) of
           a # b # _ \<Rightarrow> if isFinite a \<and> isFinite b \<and> b \<noteq> Fin 0 then Some (jdiv a b) else None
         | _ \<Rightarrow> None)
      else (let n = Number s in
            if isFinite n \<and> jgt n (Fin 0) then Some n else None))"

subsection \<open>parseCentsOrRatioToCents\<close>

datatype kind = Cents | Ratio | Period

record token =
  cents :: jsnum
  raw :: jsstring
  type :: kind

text \<open>
  The cents branch returns only when the pattern matches and the number is finite;
  from either failed test control falls through to the ratio branch.
\<close>

definition parseCentsOrRatioToCents :: "jsstring \<Rightarrow> token option" where
  "parseCentsOrRatioToCents tok =
     (let raw = trim tok in
      if raw = [] \<or> startsWith raw (js ''#'') then None
      else (let centsLike = removeWhiteSpace raw;
                n = Number (stripCentsUnit centsLike)
            in if centsPattern centsLike \<and> isFinite n
               then Some \<lparr>cents = n, raw = raw, type = Cents\<rparr>
               else (case parseRatio raw of
                       Some r \<Rightarrow> Some \<lparr>cents = jmul (Fin 1200) (log2 r), raw = raw, type = Ratio\<rparr>
                     | None \<Rightarrow> None)))"

subsection \<open>parsePeriodToCents\<close>

definition parsePeriodToCents :: "jsstring \<Rightarrow> jsnum" where
  "parsePeriodToCents str =
     (let s = trim str in
      if s = [] then NaN
      else if centsPattern s then Number (stripCentsUnit s)
      else (case parseRatio s of
              Some r \<Rightarrow> jmul (Fin 1200) (log2 r)
            | None \<Rightarrow> NaN))"

subsection \<open>normalizePeriodLabel\<close>

definition normalizePeriodLabel :: "(real \<Rightarrow> jsstring) \<Rightarrow> jsstring \<Rightarrow> jsnum \<Rightarrow> jsstring" where
  "normalizePeriodLabel numToStr inputValue periodCents =
     (let s = trim inputValue in
      if s = [] then toFixed numToStr 0 periodCents
      else if includesChar s (ch CHR ''/'') then s
      else if centsPattern s then trim (stripCentsUnit s)
      else toFixed numToStr 0 periodCents)"

subsection \<open>buildItems\<close>

text \<open>
  An item is a token with its position: the fields \<open>deg\<close>, \<open>x\<close> and \<open>y\<close> of the
  source (the last two are \<open>px\<close> and \<open>py\<close> here).
\<close>

record item = token +
  deg :: jsnum
  px :: jsnum
  py :: jsnum

text \<open>
  The angle of line 139: \<open>((it.cents / periodCents) * 360) % 360\<close>. In binary64
  the quotient and the product are each rounded before \<open>%\<close> is applied; the
  theorems on angles are stated on the value of the product, so that they do not depend
  on how it was rounded.
\<close>

definition computeAngle :: "jsnum \<Rightarrow> jsnum \<Rightarrow> jsnum" where
  "computeAngle c periodCents = jrem (jmul (jdiv c periodCents) (Fin 360)) (Fin 360)"

text \<open>The angle in radians, with 0 degrees at the top: \<open>(deg - 90) * Math.PI / 180\<close>.\<close>

definition toTheta :: "jsnum \<Rightarrow> jsnum" where
  "toTheta d = jdiv (jmul (jsub d (Fin 90)) Math_PI) (Fin 180)"

text \<open>The loop over the lines: a line that does not parse is skipped.\<close>

fun placeLines :: "jsnum \<Rightarrow> jsnum \<Rightarrow> jsnum \<Rightarrow> jsnum \<Rightarrow> jsstring list \<Rightarrow> item list" where
  "placeLines cx cy radius periodCents [] = []"
| "placeLines cx cy radius periodCents (line # lines) =
     (case parseCentsOrRatioToCents line of
        None \<Rightarrow> placeLines cx cy radius periodCents lines
      | Some it \<Rightarrow>
          (let d = computeAngle (cents it) periodCents;
               theta = toTheta d;
               x = jadd cx (jmul (Math_cos theta) radius);
               y = jadd cy (jmul (Math_sin theta) radius)
           in \<lparr>cents = cents it, raw = raw it, type = type it, deg = d, px = x, py = y\<rparr>
              # placeLines cx cy radius periodCents lines))"

definition buildItems ::
  "(real \<Rightarrow> jsstring) \<Rightarrow> jsstring \<Rightarrow> jsstring \<Rightarrow> jsnum \<Rightarrow> jsnum \<Rightarrow> jsnum \<Rightarrow> jsnum \<Rightarrow> item list" where
  "buildItems numToStr periodInputValue intervalsText cx cy radius periodCents =
     (let periodLabel = normalizePeriodLabel numToStr periodInputValue periodCents in
      \<lparr>cents = Fin 0, raw = periodLabel, type = Period, deg = Fin 0, px = cx, py = jsub cy radius\<rparr>
      # placeLines cx cy radius periodCents (splitLines intervalsText))"

subsection \<open>calculateDimensions\<close>

record rect =
  width :: jsnum
  height :: jsnum

text \<open>
  The object that \<open>calculateDimensions\<close> returns: the fields \<open>W\<close>, \<open>H\<close>, \<open>cx\<close>,
  \<open>cy\<close> and \<open>radius\<close> of the source.
\<close>

record dims =
  dimW :: jsnum
  dimH :: jsnum
  dimCx :: jsnum
  dimCy :: jsnum
  dimRadius :: jsnum

definition calculateDimensions :: "rect \<Rightarrow> jsnum \<Rightarrow> dims" where
  "calculateDimensions containerRect circleSizeMultiplier =
     (let W = Math_max (width containerRect) MIN_DIMENSION;
          H = Math_max (height containerRect) MIN_DIMENSION;
          maxRadius = jsub (jdiv (Math_min W H) (Fin 2)) PADDING;
          baseRadius = Math_max MIN_RADIUS maxRadius;
          radius = jmul baseRadius circleSizeMultiplier
      in \<lparr>dimW = W, dimH = H, dimCx = jdiv W (Fin 2), dimCy = jdiv H (Fin 2), dimRadius = radius\<rparr>)"

subsection \<open>createSVGElement\<close>

text \<open>
  An element of the SVG tree: its tag, its attributes in the order they were set, its
  text content and its children. An attribute value is given as a string or a number
  and stored as a string, as \<open>setAttribute\<close> does.
\<close>

datatype node = Element string "(string \<times> jsstring) list" jsstring "node list"

datatype jsval = Str jsstring | Num jsnum

definition valToString :: "(real \<Rightarrow> jsstring) \<Rightarrow> jsval \<Rightarrow> jsstring" where
  "valToString numToStr v = (case v of Str s \<Rightarrow> s | Num a \<Rightarrow> Number_toString numToStr a)"

fun setAttribute :: "string \<Rightarrow> jsstring \<Rightarrow> (string \<times> jsstring) list \<Rightarrow> (string \<times> jsstring) list" where
  "setAttribute k v [] = [(k, v)]"
| "setAttribute k v ((k', v') # as) =
     (if k' = k then (k, v) # as else (k', v') # setAttribute k v as)"

definition createSVGElement :: "(real \<Rightarrow> jsstring) \<Rightarrow> string \<Rightarrow> (string \<times> jsval) list \<Rightarrow> node" where
  "createSVGElement numToStr tag as =
     Element tag (foldl (\<lambda>acc (k, v). setAttribute k (valToString numToStr v) acc) [] as) [] []"

fun appendChild :: "node \<Rightarrow> node \<Rightarrow> node" where
  "appendChild (Element tag as txt cs) c = Element tag as txt (cs @ [c])"

fun setTextContent :: "node \<Rightarrow> jsstring \<Rightarrow> node" where
  "setTextContent (Element tag as txt cs) t = Element tag as t cs"

section \<open>The page\<close>

text \<open>
  What the two renderers read from the document and what the live renderer writes to
  it. The elements that the scripts look up by id exist in the page; \<open>labelDistance\<close>
  is read through \<open>?.\<close> and \<open>periodInfo\<close> is tested before use, so each may be
  absent.

  \<open>svgAttrs\<close> and \<open>svgChildren\<close> are the attributes and the children of the live
  \<open>svg\<close> element, \<open>containerWidth\<close> and \<open>containerHeight\<close> the style of its
  parent and \<open>containerRect\<close> the parent's bounding rectangle; \<open>panelRect\<close> is the
  bounding rectangle of the panel, \<open>headerHeight\<close> the height of its \<open>h2\<close> when it
  has one, \<open>paddingTop\<close> and \<open>paddingBottom\<close> its computed style. The other fields
  are the \<open>value\<close> or \<open>checked\<close> of the controls, and \<open>periodInfo\<close> is the text
  of the period read-out.
\<close>

record dom =
  svgAttrs :: "(string \<times> jsstring) list"
  svgChildren :: "node list"
  containerWidth :: jsstring
  containerHeight :: jsstring
  containerRect :: rect
  panelRect :: rect
  headerHeight :: "jsnum option"
  paddingTop :: jsstring
  paddingBottom :: jsstring
  periodInput :: jsstring
  intervalsTA :: jsstring
  showCircle :: bool
  showRays :: bool
  showLabels :: bool
  circleSize :: jsstring
  labelSize :: jsstring
  labelDistance :: "jsstring option"
  periodInfo :: "jsstring option"

text \<open>
  \<open>parseFloat(labelDistance?.value || DEFAULTS.LABEL_DISTANCE)\<close>: an absent element
  or an empty value gives the default 35, which \<open>parseFloat\<close> reads as the string
  \<open>35\<close>.
\<close>

definition labelDistanceValue :: "dom \<Rightarrow> jsnum" where
  "labelDistanceValue d =
     parseFloat (case labelDistance d of
                   None \<Rightarrow> js ''35''
                 | Some v \<Rightarrow> if v = [] then js ''35'' else v)"

section \<open>export.js\<close>

text \<open>
  The object that \<open>calculateExportDimensions\<close> returns: the fields \<open>size\<close>,
  \<open>radius\<close>, \<open>cx\<close> and \<open>cy\<close> of the source.
\<close>

record exportDims =
  size :: jsnum
  expRadius :: jsnum
  expCx :: jsnum
  expCy :: jsnum

definition calculateExportDimensions :: "dom \<Rightarrow> exportDims" where
  "calculateExportDimensions d =
     (let circleSizeValue = parseFloat (circleSize d);
          dm = calculateDimensions (containerRect d) circleSizeValue;
          labelDist = (if showLabels d then labelDistanceValue d else Fin 0);
          totalRadius = jadd (dimRadius dm) labelDist;
          sz = Math_max EXPORT_MIN_SIZE (Math_ceil (jmul (jadd totalRadius EXPORT_PADDING) (Fin 2)))
      in \<lparr>size = sz, expRadius = dimRadius dm, expCx = jdiv sz (Fin 2), expCy = jdiv sz (Fin 2)\<rparr>)"

text \<open>The template literal \<open>`0 0 ${w} ${h}`\<close>.\<close>

definition viewBoxOf :: "(real \<Rightarrow> jsstring) \<Rightarrow> jsnum \<Rightarrow> jsnum \<Rightarrow> jsstring" where
  "viewBoxOf numToStr w h =
     js ''0 0 '' @ Number_toString numToStr w @ js '' '' @ Number_toString numToStr h"

text \<open>A ray: the line from the centre to the circle at the angle of the item.\<close>

definition rayOf :: "(real \<Rightarrow> jsstring) \<Rightarrow> jsnum \<Rightarrow> jsnum \<Rightarrow> jsnum \<Rightarrow> item \<Rightarrow> node" where
  "rayOf numToStr cx cy radius it =
     (let angle = toTheta (deg it);
          x2 = jadd cx (jmul (Math_cos angle) radius);
          y2 = jadd cy (jmul (Math_sin angle) radius)
      in createSVGElement numToStr ''line''
           [(''x1'', Num cx), (''y1'', Num cy), (''x2'', Num x2), (''y2'', Num y2),
            (''stroke'', Str (js ''black'')), (''stroke-width'', Num (Fin 1))])"

text \<open>The group of an item: its point and, when labels are shown, its label.\<close>

definition pointAndLabelOf ::
  "(real \<Rightarrow> jsstring) \<Rightarrow> bool \<Rightarrow> jsstring \<Rightarrow> jsnum \<Rightarrow> jsnum \<Rightarrow> jsnum \<Rightarrow> item \<Rightarrow> node" where
  "pointAndLabelOf numToStr showLabelsEnabled fontSize cx cy labelRadius it =
     (let g = createSVGElement numToStr ''g'' [];
          pt = createSVGElement numToStr ''circle''
                 [(''cx'', Num (px it)), (''cy'', Num (py it)), (''r'', Num POINT_RADIUS),
                  (''fill'', Str (js ''black'')), (''stroke'', Str (js ''none''))];
          g1 = appendChild g pt
      in if showLabelsEnabled then
           (let angle = toTheta (deg it);
                lx = jadd cx (jmul (Math_cos angle) labelRadius);
                ly = jadd cy (jmul (Math_sin angle) labelRadius);
                label = createSVGElement numToStr ''text''
                          [(''x'', Num lx), (''y'', Num ly), (''fill'', Str (js ''black'')),
                           (''font-size'', Str fontSize), (''dominant-baseline'', Str (js ''middle'')),
                           (''text-anchor'', Str (js ''middle''))]
            in appendChild g1 (setTextContent label (raw it)))
         else g1)"

definition createExportSVG :: "(real \<Rightarrow> jsstring) \<Rightarrow> dom \<Rightarrow> node" where
  "createExportSVG numToStr d =
     (let dm = calculateExportDimensions d;
          periodCents = parsePeriodToCents (periodInput d)
      in if \<not> isFinite periodCents \<or> periodCents = Fin 0 then
           (let empty = createSVGElement numToStr ''svg''
                          [(''width'', Num (size dm)), (''height'', Num (size dm)),
                           (''viewBox'', Str (viewBoxOf numToStr (size dm) (size dm)))];
                bg = createSVGElement numToStr ''rect''
                       [(''x'', Num (Fin 0)), (''y'', Num (Fin 0)), (''width'', Num (size dm)),
                        (''height'', Num (size dm)), (''fill'', Str (js ''white''))]
            in appendChild empty bg)
         else
           (let svg0 = createSVGElement numToStr ''svg''
                         [(''width'', Num (size dm)), (''height'', Num (size dm)),
                          (''viewBox'', Str (viewBoxOf numToStr (size dm) (size dm))),
                          (''xmlns'', Str (js ''http://www.w3.org/2000/svg''))];
                bg = createSVGElement numToStr ''rect''
                       [(''x'', Num (Fin 0)), (''y'', Num (Fin 0)), (''width'', Num (size dm)),
                        (''height'', Num (size dm)), (''fill'', Str (js ''white''))];
                svg1 = appendChild svg0 bg;
                svg2 = (if showCircle d then
                          appendChild svg1
                            (createSVGElement numToStr ''circle''
                               [(''cx'', Num (expCx dm)), (''cy'', Num (expCy dm)),
                                (''r'', Num (expRadius dm)), (''fill'', Str (js ''none'')),
                                (''stroke'', Str (js ''black'')), (''stroke-width'', Num (Fin 1))])
                        else svg1);
                items = buildItems numToStr (periodInput d) (intervalsTA d)
                          (expCx dm) (expCy dm) (expRadius dm) periodCents;
                svg3 = (if showRays d then
                          foldl appendChild svg2
                            (map (rayOf numToStr (expCx dm) (expCy dm) (expRadius dm)) items)
                        else svg2);
                labelDist = labelDistanceValue d;
                labelRadius = jadd (expRadius dm) labelDist
            in foldl appendChild svg3
                 (map (pointAndLabelOf numToStr (showLabels d) (labelSize d)
                         (expCx dm) (expCy dm) labelRadius) items)))"

section \<open>script.js\<close>

text \<open>
  The drawing functions append to the children of the live \<open>svg\<close> element, which is
  the state they pass on; \<open>clearSVG\<close> removes them all.
\<close>

definition clearSVG :: "node list \<Rightarrow> node list" where
  "clearSVG cs = []"

definition drawBackground :: "(real \<Rightarrow> jsstring) \<Rightarrow> jsnum \<Rightarrow> jsnum \<Rightarrow> node list \<Rightarrow> node list" where
  "drawBackground numToStr W H cs =
     cs @ [createSVGElement numToStr ''rect''
             [(''x'', Num (Fin 0)), (''y'', Num (Fin 0)), (''width'', Num W), (''height'', Num H),
              (''fill'', Str (js ''white'')), (''stroke'', Str (js ''none''))]]"

definition drawCircle :: "(real \<Rightarrow> jsstring) \<Rightarrow> jsnum \<Rightarrow> jsnum \<Rightarrow> jsnum \<Rightarrow> node list \<Rightarrow> node list" where
  "drawCircle numToStr cx cy radius cs =
     cs @ [createSVGElement numToStr ''circle''
             [(''cx'', Num cx), (''cy'', Num cy), (''r'', Num radius), (''fill'', Str (js ''none'')),
              (''stroke'', Str (js ''black'')), (''stroke-width'', Num (Fin 1))]]"

definition drawRays ::
  "(real \<Rightarrow> jsstring) \<Rightarrow> item list \<Rightarrow> jsnum \<Rightarrow> jsnum \<Rightarrow> jsnum \<Rightarrow> node list \<Rightarrow> node list" where
  "drawRays numToStr items cx cy radius cs = cs @ map (rayOf numToStr cx cy radius) items"

definition drawPointsAndLabels ::
  "(real \<Rightarrow> jsstring) \<Rightarrow> dom \<Rightarrow> item list \<Rightarrow> jsnum \<Rightarrow> jsnum \<Rightarrow> jsnum \<Rightarrow> node list \<Rightarrow> node list" where
  "drawPointsAndLabels numToStr d items cx cy radius cs =
     (let labelDist = labelDistanceValue d;
          labelRadius = jadd radius labelDist;
          fontSize = labelSize d;
          showLabelsEnabled = showLabels d
      in cs @ map (pointAndLabelOf numToStr showLabelsEnabled fontSize cx cy labelRadius) items)"

text \<open>
  \<open>draw\<close>: the page after a redraw. The controls are read from the page as it was.
  The early \<open>return\<close> for a period that is not finite or is zero leaves the children
  as they are after \<open>drawBackground\<close>.
\<close>

definition draw :: "(real \<Rightarrow> jsstring) \<Rightarrow> dom \<Rightarrow> dom" where
  "draw numToStr d =
     (let cs0 = clearSVG (svgChildren d);
          headerH = (case headerHeight d of None \<Rightarrow> Fin 0 | Some h \<Rightarrow> h);
          padTop = parseFloat (if paddingTop d = [] then js ''0'' else paddingTop d);
          padBottom = parseFloat (if paddingBottom d = [] then js ''0'' else paddingBottom d);
          availableH = Math_max (Fin 0)
                         (jsub (jsub (jsub (jsub (height (panelRect d)) headerH) padTop) padBottom) (Fin 18));
          availableW = width (panelRect d);
          squareSize = Math_max MIN_DIMENSION (Math_floor (Math_min availableW availableH));
          dm = calculateDimensions \<lparr>width = squareSize, height = squareSize\<rparr> (parseFloat (circleSize d));
          cs1 = drawBackground numToStr (dimW dm) (dimH dm) cs0;
          periodCents = parsePeriodToCents (periodInput d);
          info = (case periodInfo d of
                    None \<Rightarrow> None
                  | Some old \<Rightarrow>
                      Some (if isFinite periodCents
                            then js ''Period: '' @ toFixed numToStr 3 periodCents @ [CENT]
                            else js ''Period: '' @ [0x2014]));
          cs = (if \<not> isFinite periodCents \<or> periodCents = Fin 0 then cs1
                else
                  (let cs2 = (if showCircle d
                              then drawCircle numToStr (dimCx dm) (dimCy dm) (dimRadius dm) cs1
                              else cs1);
                       items = buildItems numToStr (periodInput d) (intervalsTA d)
                                 (dimCx dm) (dimCy dm) (dimRadius dm) periodCents;
                       cs3 = (if showRays d
                              then drawRays numToStr items (dimCx dm) (dimCy dm) (dimRadius dm) cs2
                              else cs2)
                   in drawPointsAndLabels numToStr d items (dimCx dm) (dimCy dm) (dimRadius dm) cs3))
      in d\<lparr>svgAttrs :=
             setAttribute ''viewBox'' (viewBoxOf numToStr (dimW dm) (dimH dm))
               (setAttribute ''height'' (Number_toString numToStr (dimH dm))
                  (setAttribute ''width'' (Number_toString numToStr (dimW dm)) (svgAttrs d))),
           svgChildren := cs,
           containerWidth := Number_toString numToStr squareSize @ js ''px'',
           containerHeight := Number_toString numToStr squareSize @ js ''px'',
           periodInfo := info\<rparr>)"

section \<open>Auxiliary definitions for the statements\<close>

text \<open>A real that the range step of \<open>toDouble\<close> leaves as it is.\<close>

definition withinRange :: "real \<Rightarrow> bool" where
  "withinRange x \<longleftrightarrow> x = 0 \<or> (underflowBound < \<bar>x\<bar> \<and> \<bar>x\<bar> < overflowBound)"

text \<open>
  The number that a decimal numeral denotes, read from the notation itself: behind an
  optional minus sign, the digits before the point as an integer plus the digits after
  the point as a fraction.
\<close>

definition decimalValue :: "jsstring \<Rightarrow> real" where
  "decimalValue s =
     (let neg = (s \<noteq> [] \<and> hd s = ch CHR ''-'');
          body = (if neg then tl s else s);
          ip = takeWhile (\<lambda>c. c \<noteq> ch CHR ''.'') body;
          fp = drop 1 (dropWhile (\<lambda>c. c \<noteq> ch CHR ''.'') body)
      in (if neg then - 1 else 1) * (real (digitsValue ip) + real (digitsValue fp) / 10 ^ length fp))"

text \<open>A page: a panel of 400 by 480 with a square container of 400, and the default controls.\<close>

definition exampleDom :: dom where
  "exampleDom =
     \<lparr>svgAttrs = [], svgChildren = [], containerWidth = [], containerHeight = [],
      containerRect = \<lparr>width = Fin 400, height = Fin 400\<rparr>,
      panelRect = \<lparr>width = Fin 400, height = Fin 480\<rparr>,
      headerHeight = Some (Fin 30), paddingTop = js ''16px'', paddingBottom = js ''16px'',
      periodInput = js ''2/1'', intervalsTA = js ''0'' @ [LF] @ js ''700'' @ [LF] @ js ''1200'',
      showCircle = True, showRays = True, showLabels = True,
      circleSize = js ''1'', labelSize = js ''14'', labelDistance = Some (js ''35''),
      periodInfo = Some []\<rparr>"

section \<open>Lemmas\<close>

lemmas str_defs = js_def ch_def CENT_def LF_def CR_def isWhiteSpace_def trimStart_def trimEnd_def trim_def
  startsWith_def includesChar_def isDigit_def digitVal_def digitsValue_def isCentsUnit_def stripCentsUnit_def
  removeWhiteSpace_def centsPattern_def
lemmas num_defs = overflowBound_def underflowBound_def toDouble_def radixDigit_def radixLiteral_def scanSign_def
  scanExponent_def pow10_def scanDecimal_def Number_def parseFloat_def
lemmas const_defs = PADDING_def MIN_RADIUS_def MIN_DIMENSION_def POINT_RADIUS_def LABEL_DISTANCE_def
  EXPORT_PADDING_def EXPORT_MIN_SIZE_def

section \<open>Range\<close>

lemma toDouble_withinRange: "withinRange x \<Longrightarrow> toDouble x = Fin x"
  by (auto simp: withinRange_def toDouble_def underflowBound_def overflowBound_def)

lemma toDouble_zero [simp]: "toDouble 0 = Fin 0"
  by (simp add: toDouble_withinRange withinRange_def)

lemma withinRange_moderate: "1 / 2 ^ 64 \<le> \<bar>x\<bar> \<Longrightarrow> \<bar>x\<bar> \<le> 2 ^ 64 \<Longrightarrow> withinRange x"
  by (simp add: withinRange_def underflowBound_def overflowBound_def)

lemma ln2_lower: "1 / 2 \<le> ln (2::real)"
proof -
  have "ln (1 / 2 :: real) \<le> 1 / 2 - 1" by (rule ln_le_minus_one) simp
  moreover have "ln (1 / 2 :: real) = - ln 2" by (simp add: ln_div)
  ultimately show ?thesis by simp
qed

lemma ln2_upper: "ln (2::real) \<le> 1"
  using ln_le_minus_one [of "2::real"] by simp

lemma ln2_withinRange: "withinRange (ln 2)"
  using ln2_lower ln2_upper by (intro withinRange_moderate) auto

lemma Math_LN2_val: "Math_LN2 = Fin (ln 2)"
  by (simp add: Math_LN2_def toDouble_withinRange ln2_withinRange)

lemma ln3_lower: "1 / 2 \<le> ln (3::real)"
proof -
  have "ln (2::real) \<le> ln 3" by simp
  with ln2_lower show ?thesis by linarith
qed

lemma ln3_upper: "ln (3::real) \<le> 2"
  using ln_le_minus_one [of "3::real"] by simp

section \<open>Character classes\<close>

lemma isDigit_not_ws: "isDigit c \<Longrightarrow> \<not> isWhiteSpace c"
  by (auto simp: isDigit_def isWhiteSpace_def word_le_nat_alt)

lemma isCentsUnit_not_ws: "isCentsUnit c \<Longrightarrow> \<not> isWhiteSpace c"
  by (auto simp: isCentsUnit_def isWhiteSpace_def ch_def CENT_def)

lemma isDigit_not_unit: "isDigit c \<Longrightarrow> \<not> isCentsUnit c"
  by (auto simp: isDigit_def isCentsUnit_def ch_def CENT_def)

lemma ch_simps:
  "\<not> isWhiteSpace (ch CHR ''/'')" "\<not> isWhiteSpace (ch CHR ''-'')" "\<not> isWhiteSpace (ch CHR ''.'')"
  "\<not> isWhiteSpace (ch CHR ''+'')" "\<not> isWhiteSpace (ch CHR ''#'')"
  "\<not> isDigit (ch CHR ''/'')" "\<not> isDigit (ch CHR ''-'')" "\<not> isDigit (ch CHR ''.'')"
  "\<not> isDigit (ch CHR ''+'')" "\<not> isDigit (ch CHR ''#'')"
  "\<not> isCentsUnit (ch CHR ''/'')" "\<not> isCentsUnit (ch CHR ''-'')" "\<not> isCentsUnit (ch CHR ''.'')"
  "\<not> isCentsUnit (ch CHR ''+'')" "\<not> isCentsUnit (ch CHR ''#'')"
  by (simp_all add: isWhiteSpace_def isDigit_def isCentsUnit_def ch_def CENT_def)

section \<open>Trimming\<close>

lemma dropWhile_noop: "xs = [] \<or> \<not> P (hd xs) \<Longrightarrow> dropWhile P xs = xs"
  by (cases xs) auto


lemma trimEnd_split: "\<exists>t. a = trimEnd a @ t \<and> (\<forall>c\<in>set t. isWhiteSpace c)"
proof -
  have "rev (takeWhile isWhiteSpace (rev a) @ dropWhile isWhiteSpace (rev a)) = a"
    by (simp only: takeWhile_dropWhile_id rev_rev_ident)
  then have "a = trimEnd a @ rev (takeWhile isWhiteSpace (rev a))"
    by (simp only: rev_append trimEnd_def)
  moreover have "\<forall>c\<in>set (rev (takeWhile isWhiteSpace (rev a))). isWhiteSpace c"
    by (auto dest: set_takeWhileD)
  ultimately show ?thesis by blast
qed

lemma hd_trimEnd: "trimEnd a \<noteq> [] \<Longrightarrow> hd (trimEnd a) = hd a"
proof -
  assume ne: "trimEnd a \<noteq> []"
  obtain t where "a = trimEnd a @ t" using trimEnd_split by blast
  then have "hd a = hd (trimEnd a @ t)" by simp
  with ne show ?thesis by simp
qed



lemma hd_trimStart: "trimStart a \<noteq> [] \<Longrightarrow> \<not> isWhiteSpace (hd (trimStart a))"
  unfolding trimStart_def by (rule hd_dropWhile)

lemma trim_hd: "trim s \<noteq> [] \<Longrightarrow> \<not> isWhiteSpace (hd (trim s))"
proof -
  assume ne: "trim s \<noteq> []"
  then have "trimStart s \<noteq> []" by (auto simp: trim_def trimEnd_def)
  then have "\<not> isWhiteSpace (hd (trimStart s))" by (rule hd_trimStart)
  moreover have "hd (trim s) = hd (trimStart s)"
    using ne unfolding trim_def by (rule hd_trimEnd)
  ultimately show ?thesis by simp
qed

lemma trimEnd_last: "trimEnd a \<noteq> [] \<Longrightarrow> \<not> isWhiteSpace (last (trimEnd a))"
proof -
  assume ne: "trimEnd a \<noteq> []"
  then have d: "dropWhile isWhiteSpace (rev a) \<noteq> []" by (simp add: trimEnd_def)
  have "last (trimEnd a) = hd (dropWhile isWhiteSpace (rev a))"
    using d by (simp add: trimEnd_def last_rev)
  with hd_dropWhile [OF d] show ?thesis by simp
qed

lemma trim_last: "trim s \<noteq> [] \<Longrightarrow> \<not> isWhiteSpace (last (trim s))"
  unfolding trim_def by (rule trimEnd_last)

lemma trimStart_noop: "s = [] \<or> \<not> isWhiteSpace (hd s) \<Longrightarrow> trimStart s = s"
  unfolding trimStart_def by (rule dropWhile_noop)

lemma trimEnd_noop: "s = [] \<or> \<not> isWhiteSpace (last s) \<Longrightarrow> trimEnd s = s"
proof -
  assume a: "s = [] \<or> \<not> isWhiteSpace (last s)"
  have "rev s = [] \<or> \<not> isWhiteSpace (hd (rev s))"
    using a by (cases "s = []") (auto simp: hd_rev)
  then have "dropWhile isWhiteSpace (rev s) = rev s" by (rule dropWhile_noop)
  then show ?thesis by (simp add: trimEnd_def)
qed

lemma trim_noop: "s = [] \<or> (\<not> isWhiteSpace (hd s) \<and> \<not> isWhiteSpace (last s)) \<Longrightarrow> trim s = s"
  by (auto simp: trim_def trimStart_noop trimEnd_noop)

lemma trim_idem: "trim (trim s) = trim s"
  by (rule trim_noop) (use trim_hd trim_last in blast)

lemma set_trim: "set (trim s) \<subseteq> set s"
  by (auto simp: trim_def trimEnd_def trimStart_def dest!: set_dropWhileD)












section \<open>Splitting\<close>



section \<open>Angles\<close>

lemma fmod_360_bounds:
  "- 360 < fmod q 360 \<and> fmod q 360 < 360 \<and> (0 \<le> q \<longrightarrow> 0 \<le> fmod q 360) \<and> (q \<le> 0 \<longrightarrow> fmod q 360 \<le> 0)"
proof (cases "0 \<le> q")
  case True
  have "of_int \<lfloor>q / 360\<rfloor> \<le> q / 360" "q / 360 < of_int \<lfloor>q / 360\<rfloor> + 1" by linarith+
  then have "0 \<le> q - 360 * of_int \<lfloor>q / 360\<rfloor>" "q - 360 * of_int \<lfloor>q / 360\<rfloor> < 360" by linarith+
  moreover have "q \<le> 0 \<Longrightarrow> q = 0" using True by simp
  ultimately show ?thesis using True by (auto simp: fmod_def trunc_def)
next
  case False
  have "of_int \<lceil>q / 360\<rceil> - 1 < q / 360" "q / 360 \<le> of_int \<lceil>q / 360\<rceil>" by linarith+
  then have "- 360 < q - 360 * of_int \<lceil>q / 360\<rceil>" "q - 360 * of_int \<lceil>q / 360\<rceil> \<le> 0" by linarith+
  then show ?thesis using False by (auto simp: fmod_def trunc_def)
qed



lemma computeAngle_Fin:
  assumes "jmul (jdiv c p) (Fin 360) = Fin q"
  shows "computeAngle c p = Fin (fmod q 360)"
  using assms by (simp add: computeAngle_def)



lemma computeAngle_zero: "p \<noteq> 0 \<Longrightarrow> computeAngle (Fin 0) (Fin p) = Fin 0"
  by (simp add: computeAngle_def fmod_def trunc_def)

lemma placeLines_deg:
  "it \<in> set (placeLines cx cy radius periodCents ls) \<Longrightarrow> deg it = computeAngle (cents it) periodCents"
  by (induction ls) (auto simp: Let_def split: option.splits)

lemma buildItems_deg:
  assumes "isFinite periodCents" "periodCents \<noteq> Fin 0"
    and "it \<in> set (buildItems numToStr periodInputValue intervalsText cx cy radius periodCents)"
  shows "deg it = computeAngle (cents it) periodCents"
proof -
  obtain p where p: "periodCents = Fin p" "p \<noteq> 0"
    using assms(1,2) by (cases periodCents) auto
  from assms(3) show ?thesis
    by (auto simp: buildItems_def p computeAngle_zero placeLines_deg)
qed

section \<open>The cents pattern\<close>

lemma takeWhile_all_append: "\<forall>c\<in>set xs. P c \<Longrightarrow> ys = [] \<or> \<not> P (hd ys) \<Longrightarrow> takeWhile P (xs @ ys) = xs"
  by (cases ys) (auto simp: takeWhile_append2)

lemma dropWhile_all_append: "\<forall>c\<in>set xs. P c \<Longrightarrow> ys = [] \<or> \<not> P (hd ys) \<Longrightarrow> dropWhile P (xs @ ys) = ys"
  by (cases ys) (auto simp: dropWhile_append2)

lemma dot_facts:
  "\<not> isDigit (ch CHR ''.'')" "\<not> isCentsUnit (ch CHR ''.'')" "\<not> isWhiteSpace (ch CHR ''.'')"
  "\<not> isDigit (ch CHR ''-'')" "\<not> isCentsUnit (ch CHR ''-'')" "\<not> isWhiteSpace (ch CHR ''-'')"
  "ch CHR ''-'' \<noteq> ch CHR ''.''" "ch CHR ''.'' \<noteq> ch CHR ''-''"
  by (simp_all add: isWhiteSpace_def isDigit_def isCentsUnit_def ch_def CENT_def)

lemma isCentsUnit_not_digit: "isCentsUnit c \<Longrightarrow> \<not> isDigit c"
  using isDigit_not_unit by blast

lemma isCentsUnit_not_dot: "isCentsUnit c \<Longrightarrow> c \<noteq> ch CHR ''.''"
  using dot_facts(2) by blast

lemma isDigit_not_dot: "isDigit c \<Longrightarrow> c \<noteq> ch CHR ''.''"
  using dot_facts(1) by blast

lemma isDigit_not_minus: "isDigit c \<Longrightarrow> c \<noteq> ch CHR ''-''"
  using dot_facts(4) by blast

lemma centsPattern_cases:
  assumes "centsPattern s"
  obtains sg ip fr un where
    "s = sg @ ip @ fr @ un"
    "sg = [] \<or> sg = [ch CHR ''-'']"
    "ip \<noteq> []" "\<forall>c\<in>set ip. isDigit c"
    "fr = [] \<or> (\<exists>fp. fr = ch CHR ''.'' # fp \<and> fp \<noteq> [] \<and> (\<forall>c\<in>set fp. isDigit c))"
    "un = [] \<or> (\<exists>u. un = [u] \<and> isCentsUnit u)"
proof -
  define neg where "neg \<longleftrightarrow> s \<noteq> [] \<and> hd s = ch CHR ''-''"
  define s1 where "s1 = (if neg then tl s else s)"
  define sg where "sg = (if neg then [ch CHR ''-''] else [])"
  define ip where "ip = takeWhile isDigit s1"
  define r1 where "r1 = dropWhile isDigit s1"
  define dot where "dot \<longleftrightarrow> r1 \<noteq> [] \<and> hd r1 = ch CHR ''.'' \<and> takeWhile isDigit (tl r1) \<noteq> []"
  define fr where "fr = (if dot then ch CHR ''.'' # takeWhile isDigit (tl r1) else [])"
  define un where "un = (if dot then dropWhile isDigit (tl r1) else r1)"
  have s: "s = sg @ s1"
    by (cases s) (auto simp: s1_def sg_def neg_def)
  have s1: "s1 = ip @ r1"
    by (simp add: ip_def r1_def)
  have r1: "r1 = fr @ un"
  proof (cases dot)
    case True
    then have "r1 = ch CHR ''.'' # tl r1" by (cases r1) (auto simp: dot_def)
    then have "r1 = ch CHR ''.'' # (takeWhile isDigit (tl r1) @ dropWhile isDigit (tl r1))" by simp
    with True show ?thesis by (simp add: fr_def un_def)
  next
    case False
    then show ?thesis by (simp add: fr_def un_def)
  qed
  from assms have m: "ip \<noteq> []" "un = [] \<or> (length un = 1 \<and> isCentsUnit (hd un))"
    unfolding centsPattern_def Let_def ip_def un_def dot_def r1_def s1_def neg_def by auto
  have u: "un = [] \<or> (\<exists>u. un = [u] \<and> isCentsUnit u)"
    using m(2) by (cases un) auto
  have f: "fr = [] \<or> (\<exists>fp. fr = ch CHR ''.'' # fp \<and> fp \<noteq> [] \<and> (\<forall>c\<in>set fp. isDigit c))"
    by (auto simp: fr_def dot_def dest: set_takeWhileD)
  have i: "\<forall>c\<in>set ip. isDigit c"
    by (auto simp: ip_def dest: set_takeWhileD)
  have g: "sg = [] \<or> sg = [ch CHR ''-'']" by (simp add: sg_def)
  have "s = sg @ ip @ fr @ un" using s s1 r1 by simp
  then show ?thesis using that g m(1) i f u by blast
qed

lemma centsPattern_intro:
  assumes g: "sg = [] \<or> sg = [ch CHR ''-'']"
    and i: "ip \<noteq> []" "\<forall>c\<in>set ip. isDigit c"
    and f: "fr = [] \<or> (\<exists>fp. fr = ch CHR ''.'' # fp \<and> fp \<noteq> [] \<and> (\<forall>c\<in>set fp. isDigit c))"
    and u: "un = [] \<or> (\<exists>u. un = [u] \<and> isCentsUnit u)"
  shows "centsPattern (sg @ ip @ fr @ un)"
proof -
  let ?s = "sg @ ip @ fr @ un"
  have hdip: "isDigit (hd ip)" using i by (cases ip) auto
  have s1: "(if ?s \<noteq> [] \<and> hd ?s = ch CHR ''-'' then tl ?s else ?s) = ip @ fr @ un"
    using g i(1) hdip isDigit_not_minus by (cases ip) auto
  have nd: "fr @ un = [] \<or> \<not> isDigit (hd (fr @ un))"
    using f u by (auto simp: dot_facts isCentsUnit_not_digit)
  have tw: "takeWhile isDigit (ip @ fr @ un) = ip"
    by (rule takeWhile_all_append [OF i(2) nd])
  have dw: "dropWhile isDigit (ip @ fr @ un) = fr @ un"
    by (rule dropWhile_all_append [OF i(2) nd])
  have nu: "un = [] \<or> \<not> isDigit (hd un)"
    using u by (auto simp: isCentsUnit_not_digit)
  have r2: "(if fr @ un \<noteq> [] \<and> hd (fr @ un) = ch CHR ''.'' \<and> takeWhile isDigit (tl (fr @ un)) \<noteq> []
             then dropWhile isDigit (tl (fr @ un)) else fr @ un) = un"
  proof (cases "fr = []")
    case True
    then show ?thesis using u by (auto simp: isCentsUnit_not_dot)
  next
    case False
    then obtain fp where fp: "fr = ch CHR ''.'' # fp" "fp \<noteq> []" "\<forall>c\<in>set fp. isDigit c"
      using f by blast
    have "takeWhile isDigit (fp @ un) = fp" "dropWhile isDigit (fp @ un) = un"
      using takeWhile_all_append [OF fp(3) nu] dropWhile_all_append [OF fp(3) nu] by simp_all
    then show ?thesis using fp by simp
  qed
  have fin: "un = [] \<or> (length un = 1 \<and> isCentsUnit (hd un))"
    using u by auto
  show ?thesis
    unfolding centsPattern_def Let_def s1 tw dw r2 using i(1) fin by simp
qed

lemma centsPattern_chars:
  assumes "centsPattern s" "c \<in> set s"
  shows "c = ch CHR ''-'' \<or> isDigit c \<or> c = ch CHR ''.'' \<or> isCentsUnit c"
  using assms(1)
proof (cases rule: centsPattern_cases)
  case (1 sg ip fr un)
  then show ?thesis using assms(2) by auto
qed

lemma centsPattern_no_ws: "centsPattern s \<Longrightarrow> c \<in> set s \<Longrightarrow> \<not> isWhiteSpace c"
  using centsPattern_chars [of s c] by (auto simp: dot_facts isDigit_not_ws isCentsUnit_not_ws)

lemma centsPattern_no_slash: "centsPattern s \<Longrightarrow> ch CHR ''/'' \<notin> set s"
  using centsPattern_chars [of s "ch CHR ''/''"]
  by (auto simp: isDigit_def isCentsUnit_def ch_def CENT_def)

lemma centsPattern_no_hash: "centsPattern s \<Longrightarrow> ch CHR ''#'' \<notin> set s"
  using centsPattern_chars [of s "ch CHR ''#''"]
  by (auto simp: isDigit_def isCentsUnit_def ch_def CENT_def)

lemma centsPattern_nonempty: "centsPattern s \<Longrightarrow> s \<noteq> []"
  by (auto simp: centsPattern_def)

lemma centsPattern_trim: "centsPattern s \<Longrightarrow> trim s = s"
  by (rule trim_noop) (auto simp: centsPattern_no_ws centsPattern_nonempty)

lemma centsPattern_removeWhiteSpace: "centsPattern s \<Longrightarrow> removeWhiteSpace s = s"
  by (auto simp: removeWhiteSpace_def filter_id_conv centsPattern_no_ws)

lemma stripCentsUnit_shape:
  assumes "sg = [] \<or> sg = [ch CHR ''-'']" "\<forall>c\<in>set ip. isDigit c"
    and "fr = [] \<or> (\<exists>fp. fr = ch CHR ''.'' # fp \<and> fp \<noteq> [] \<and> (\<forall>c\<in>set fp. isDigit c))"
    and "un = [] \<or> (\<exists>u. un = [u] \<and> isCentsUnit u)"
  shows "stripCentsUnit (sg @ ip @ fr @ un) = sg @ ip @ fr"
proof -
  have "filter (\<lambda>c. \<not> isCentsUnit c) sg = sg" using assms(1) by (auto simp: dot_facts)
  moreover have "filter (\<lambda>c. \<not> isCentsUnit c) ip = ip"
    using assms(2) by (auto simp: filter_id_conv isDigit_not_unit)
  moreover have "filter (\<lambda>c. \<not> isCentsUnit c) fr = fr"
    using assms(3) by (auto simp: filter_id_conv isDigit_not_unit dot_facts)
  moreover have "filter (\<lambda>c. \<not> isCentsUnit c) un = []" using assms(4) by auto
  ultimately show ?thesis by (simp add: stripCentsUnit_def)
qed

lemma stripCentsUnit_idem: "stripCentsUnit (stripCentsUnit s) = stripCentsUnit s"
  by (simp add: stripCentsUnit_def)

lemma centsPattern_strip:
  assumes "centsPattern s"
  shows "centsPattern (stripCentsUnit s)"
  using assms
proof (cases rule: centsPattern_cases)
  case (1 sg ip fr un)
  have "stripCentsUnit s = sg @ ip @ fr @ []"
    using stripCentsUnit_shape [OF 1(2,4,5,6)] 1(1) by simp
  moreover have "centsPattern (sg @ ip @ fr @ [])"
    by (rule centsPattern_intro [OF 1(2,3,4,5)]) simp
  ultimately show ?thesis by simp
qed

section \<open>Number on decimal numerals\<close>

lemma radixLiteral_None:
  assumes "\<forall>c\<in>set u. c = ch CHR ''-'' \<or> isDigit c \<or> c = ch CHR ''.''"
  shows "radixLiteral u = None"
proof (cases u)
  case Nil
  then show ?thesis by (simp add: radixLiteral_def)
next
  case (Cons z r)
  show ?thesis
  proof (cases r)
    case Nil
    with Cons show ?thesis by (simp add: radixLiteral_def)
  next
    case (Cons p r')
    have "p = ch CHR ''-'' \<or> isDigit p \<or> p = ch CHR ''.''"
      using assms \<open>u = z # r\<close> Cons by auto
    then have "p \<noteq> ch CHR ''x''" "p \<noteq> ch CHR ''X''" "p \<noteq> ch CHR ''o''" "p \<noteq> ch CHR ''O''"
      "p \<noteq> ch CHR ''b''" "p \<noteq> ch CHR ''B''"
      by (auto simp: isDigit_def ch_def)
    then show ?thesis
      using \<open>u = z # r\<close> Cons by (simp add: radixLiteral_def split: list.splits)
  qed
qed

lemma scanSign_digit: "isDigit c \<Longrightarrow> scanSign (c # r) = (1, c # r)"
  by (auto simp: scanSign_def isDigit_def ch_def)

lemma scanSign_minus: "scanSign (ch CHR ''-'' # r) = (- 1, r)"
  by (simp add: scanSign_def ch_def)

lemma digit_not_Infinity: "isDigit c \<Longrightarrow> c # r \<noteq> js ''Infinity''"
  by (auto simp: js_def isDigit_def ch_def)

lemma scanDecimal_numeral:
  assumes i: "ip \<noteq> []" "\<forall>c\<in>set ip. isDigit c"
    and f: "fr = [] \<or> (\<exists>fp. fr = ch CHR ''.'' # fp \<and> fp \<noteq> [] \<and> (\<forall>c\<in>set fp. isDigit c))"
  shows "scanDecimal (ip @ fr) =
           Some (real (digitsValue ip) + real (digitsValue (tl fr)) / 10 ^ length (tl fr), [])"
proof -
  have nd: "fr = [] \<or> \<not> isDigit (hd fr)" using f by (auto simp: dot_facts)
  have tw: "takeWhile isDigit (ip @ fr) = ip" by (rule takeWhile_all_append [OF i(2) nd])
  have dw: "dropWhile isDigit (ip @ fr) = fr" by (rule dropWhile_all_append [OF i(2) nd])
  have ex: "scanExponent [] = None" by (simp add: scanExponent_def)
  show ?thesis
  proof (cases "fr = []")
    case True
    then show ?thesis
      unfolding scanDecimal_def Let_def tw dw using i(1) by (simp add: ex digitsValue_def)
  next
    case False
    then obtain fp where fp: "fr = ch CHR ''.'' # fp" "fp \<noteq> []" "\<forall>c\<in>set fp. isDigit c"
      using f by blast
    have t2: "takeWhile isDigit fp = fp" and d2: "dropWhile isDigit fp = []"
      using fp(3) by (simp_all add: takeWhile_eq_all_conv)
    note tw' = tw [unfolded fp(1)] and dw' = dw [unfolded fp(1)]
    show ?thesis
      unfolding fp(1) scanDecimal_def Let_def by (simp add: tw' dw' t2 d2 ex i(1) fp(2))
  qed
qed

lemma Number_numeral:
  assumes g: "sg = [] \<or> sg = [ch CHR ''-'']"
    and i: "ip \<noteq> []" "\<forall>c\<in>set ip. isDigit c"
    and f: "fr = [] \<or> (\<exists>fp. fr = ch CHR ''.'' # fp \<and> fp \<noteq> [] \<and> (\<forall>c\<in>set fp. isDigit c))"
  shows "Number (sg @ ip @ fr) =
           toDouble ((if sg = [] then 1 else - 1)
                     * (real (digitsValue ip) + real (digitsValue (tl fr)) / 10 ^ length (tl fr)))"
proof -
  let ?u = "sg @ ip @ fr"
  have cp: "centsPattern (sg @ ip @ fr @ [])"
    by (rule centsPattern_intro [OF g i f]) simp
  then have cp': "centsPattern ?u" by simp
  have tr: "trim ?u = ?u" by (rule centsPattern_trim [OF cp'])
  have ne: "?u \<noteq> []" using i(1) by simp
  have "\<forall>c\<in>set ?u. c = ch CHR ''-'' \<or> isDigit c \<or> c = ch CHR ''.''"
    using g i(2) f by auto
  then have rl: "radixLiteral ?u = None" by (rule radixLiteral_None)
  obtain d ds where ip: "ip = d # ds" "isDigit d" using i by (cases ip) auto
  have ss: "scanSign ?u = ((if sg = [] then 1 else - 1), ip @ fr)"
    using g ip by (auto simp: scanSign_digit scanSign_minus)
  have ni: "ip @ fr \<noteq> js ''Infinity''"
    using ip digit_not_Infinity [of d "ds @ fr"] by simp
  show ?thesis
    unfolding Number_def Let_def tr
    by (simp add: i(1) rl ss ni scanDecimal_numeral [OF i f])
qed

lemma decimalValue_numeral:
  assumes g: "sg = [] \<or> sg = [ch CHR ''-'']"
    and i: "ip \<noteq> []" "\<forall>c\<in>set ip. isDigit c"
    and f: "fr = [] \<or> (\<exists>fp. fr = ch CHR ''.'' # fp \<and> fp \<noteq> [] \<and> (\<forall>c\<in>set fp. isDigit c))"
  shows "decimalValue (sg @ ip @ fr) =
           (if sg = [] then 1 else - 1)
             * (real (digitsValue ip) + real (digitsValue (tl fr)) / 10 ^ length (tl fr))"
proof -
  let ?u = "sg @ ip @ fr"
  obtain d ds where ip: "ip = d # ds" "isDigit d" using i by (cases ip) auto
  have neg: "(?u \<noteq> [] \<and> hd ?u = ch CHR ''-'') \<longleftrightarrow> sg \<noteq> []"
    using g ip isDigit_not_minus by auto
  have body: "(if sg \<noteq> [] then tl ?u else ?u) = ip @ fr"
    using g by auto
  have nd: "\<forall>c\<in>set ip. c \<noteq> ch CHR ''.''" using i(2) isDigit_not_dot by blast
  have hf: "fr = [] \<or> \<not> (hd fr \<noteq> ch CHR ''.'')" using f by auto
  have tw: "takeWhile (\<lambda>c. c \<noteq> ch CHR ''.'') (ip @ fr) = ip"
    by (rule takeWhile_all_append [OF nd hf])
  have dw: "dropWhile (\<lambda>c. c \<noteq> ch CHR ''.'') (ip @ fr) = fr"
    by (rule dropWhile_all_append [OF nd hf])
  show ?thesis
    unfolding decimalValue_def Let_def neg body tw dw by (simp add: drop_Suc)
qed

lemma Number_centsPattern:
  assumes "centsPattern s"
  shows "Number (stripCentsUnit s) = toDouble (decimalValue (stripCentsUnit s))"
  using assms
proof (cases rule: centsPattern_cases)
  case (1 sg ip fr un)
  have st: "stripCentsUnit s = sg @ ip @ fr"
    using stripCentsUnit_shape [OF 1(2,4,5,6)] 1(1) by simp
  show ?thesis
    unfolding st by (simp only: Number_numeral [OF 1(2,3,4,5)] decimalValue_numeral [OF 1(2,3,4,5)])
qed

lemma toDouble_finite_iff: "isFinite (toDouble x) \<longleftrightarrow> \<bar>x\<bar> < overflowBound"
  by (auto simp: toDouble_def)

lemma digitsValue_snoc: "digitsValue (ds @ [c]) = 10 * digitsValue ds + digitVal c"
  by (simp add: digitsValue_def)

lemma digitsValue_zeros: "digitsValue (ds @ replicate n (ch CHR ''0'')) = digitsValue ds * 10 ^ n"
proof (induction n)
  case 0
  then show ?case by simp
next
  case (Suc n)
  have "ds @ replicate (Suc n) (ch CHR ''0'') = (ds @ replicate n (ch CHR ''0'')) @ [ch CHR ''0'']"
    by (simp add: replicate_append_same)
  then show ?case
    using Suc by (simp only: digitsValue_snoc) (simp add: digitVal_def ch_def)
qed

lemma isDigit_plain: "isDigit c \<Longrightarrow> \<not> isWhiteSpace c \<and> c \<noteq> ch CHR ''/'' \<and> c \<noteq> ch CHR ''#''"
  by (auto simp: isDigit_def isWhiteSpace_def ch_def word_le_nat_alt)

lemma sign_plain:
  "\<not> isWhiteSpace (ch CHR ''+'') \<and> ch CHR ''+'' \<noteq> ch CHR ''/'' \<and> ch CHR ''+'' \<noteq> ch CHR ''#''"
  "\<not> isWhiteSpace (ch CHR ''-'') \<and> ch CHR ''-'' \<noteq> ch CHR ''/'' \<and> ch CHR ''-'' \<noteq> ch CHR ''#''"
  "\<not> isWhiteSpace (ch CHR ''.'') \<and> ch CHR ''.'' \<noteq> ch CHR ''/'' \<and> ch CHR ''.'' \<noteq> ch CHR ''#''"
  "\<not> isWhiteSpace (ch CHR ''e'') \<and> ch CHR ''e'' \<noteq> ch CHR ''/'' \<and> ch CHR ''e'' \<noteq> ch CHR ''#''"
  "\<not> isWhiteSpace (ch CHR ''E'') \<and> ch CHR ''E'' \<noteq> ch CHR ''/'' \<and> ch CHR ''E'' \<noteq> ch CHR ''#''"
  by (simp_all add: isWhiteSpace_def ch_def)

lemma scanSign_cases:
  "scanSign s = (sg, u) \<Longrightarrow> s = u \<or> s = ch CHR ''+'' # u \<or> s = ch CHR ''-'' # u"
  by (auto simp: scanSign_def split: list.splits if_splits)

lemma scanExponent_Some:
  assumes "scanExponent s = Some (e, rest)"
  obtains x r sg r' where "s = x # r" "x = ch CHR ''e'' \<or> x = ch CHR ''E''"
    "scanSign r = (sg, r')" "takeWhile isDigit r' \<noteq> []" "rest = dropWhile isDigit r'"
proof (cases s)
  case Nil
  with assms show ?thesis by (simp add: scanExponent_def)
next
  case (Cons x r)
  obtain sg r' where ss: "scanSign r = (sg, r')" by (cases "scanSign r")
  have x: "x = ch CHR ''e'' \<or> x = ch CHR ''E''"
    using assms unfolding Cons scanExponent_def by (simp split: if_splits)
  have "takeWhile isDigit r' \<noteq> [] \<and> rest = dropWhile isDigit r'"
    using assms x unfolding Cons scanExponent_def by (simp add: ss Let_def split: if_splits)
  then show ?thesis using that Cons x ss by blast
qed

lemma scanExponent_chars:
  assumes "scanExponent s = Some (e, [])" "c \<in> set s"
  shows "\<not> isWhiteSpace c \<and> c \<noteq> ch CHR ''/'' \<and> c \<noteq> ch CHR ''#''"
  using assms(1)
proof (cases rule: scanExponent_Some)
  case (1 x r sg r')
  from 1(5) [symmetric] have dig: "\<forall>c\<in>set r'. isDigit c" by (simp add: dropWhile_eq_Nil_conv)
  have "c = x \<or> c = ch CHR ''+'' \<or> c = ch CHR ''-'' \<or> c \<in> set r'"
    using assms(2) 1(1) scanSign_cases [OF 1(3)] by auto
  then show ?thesis
  proof (elim disjE)
    assume "c = x"
    then show ?thesis using 1(2) sign_plain(4,5) by auto
  next
    assume "c = ch CHR ''+''"
    then show ?thesis by (simp add: sign_plain(1))
  next
    assume "c = ch CHR ''-''"
    then show ?thesis by (simp add: sign_plain(2))
  next
    assume "c \<in> set r'"
    then show ?thesis using dig isDigit_plain by auto
  qed
qed


lemma scanDecimal_chars:
  assumes "scanDecimal u = Some (v, [])" "c \<in> set u"
  shows "\<not> isWhiteSpace c \<and> c \<noteq> ch CHR ''/'' \<and> c \<noteq> ch CHR ''#''"
proof -
  define ip where "ip = takeWhile isDigit u"
  define r1 where "r1 = dropWhile isDigit u"
  define dot where "dot \<longleftrightarrow> r1 \<noteq> [] \<and> hd r1 = ch CHR ''.''"
  define fp where "fp = (if dot then takeWhile isDigit (tl r1) else [])"
  define r2 where "r2 = (if dot then dropWhile isDigit (tl r1) else r1)"
  define m where "m = real (digitsValue ip) + real (digitsValue fp) / 10 ^ length fp"
  have u: "u = ip @ r1" by (simp add: ip_def r1_def)
  have r1: "r1 = (if dot then ch CHR ''.'' # fp @ r2 else r2)"
  proof (cases dot)
    case True
    then have "r1 = ch CHR ''.'' # tl r1" by (cases r1) (auto simp: dot_def)
    then have "r1 = ch CHR ''.'' # (takeWhile isDigit (tl r1) @ dropWhile isDigit (tl r1))" by simp
    with True show ?thesis by (simp add: fp_def r2_def)
  next
    case False
    then show ?thesis by (simp add: r2_def)
  qed
  have sdef: "scanDecimal u =
      (if ip = [] \<and> fp = [] then None
       else (case scanExponent r2 of None \<Rightarrow> Some (m, r2) | Some (e, r3) \<Rightarrow> Some (m * pow10 e, r3)))"
    by (simp only: scanDecimal_def Let_def ip_def r1_def dot_def fp_def r2_def m_def)
  have r2ok: "\<forall>c\<in>set r2. \<not> isWhiteSpace c \<and> c \<noteq> ch CHR ''/'' \<and> c \<noteq> ch CHR ''#''"
  proof (cases "scanExponent r2")
    case None
    with assms(1) sdef have "r2 = []" by (simp split: if_splits)
    then show ?thesis by simp
  next
    case (Some a)
    obtain e r3 where a: "a = (e, r3)" by (cases a)
    with assms(1) sdef Some have "r3 = []" by (simp split: if_splits)
    with Some a have "scanExponent r2 = Some (e, [])" by simp
    then show ?thesis using scanExponent_chars by blast
  qed
  have ipok: "\<forall>c\<in>set ip. isDigit c" by (auto simp: ip_def dest: set_takeWhileD)
  have fpok: "\<forall>c\<in>set fp. isDigit c" by (auto simp: fp_def dest: set_takeWhileD)
  have "c \<in> set ip \<or> c = ch CHR ''.'' \<or> c \<in> set fp \<or> c \<in> set r2"
    using assms(2) u r1 by (cases dot) auto
  then show ?thesis
  proof (elim disjE)
    assume "c \<in> set ip"
    then show ?thesis using ipok isDigit_plain by auto
  next
    assume "c = ch CHR ''.''"
    then show ?thesis by (simp add: sign_plain(3))
  next
    assume "c \<in> set fp"
    then show ?thesis using fpok isDigit_plain by auto
  next
    assume "c \<in> set r2"
    then show ?thesis using r2ok by auto
  qed
qed

lemma radixDigit_plain:
  assumes "radixDigit r c = Some v" "r \<le> 16"
  shows "\<not> isWhiteSpace c \<and> c \<noteq> ch CHR ''/'' \<and> c \<noteq> ch CHR ''#''"
proof -
  from assms have "(0x30 \<le> c \<and> c \<le> 0x39) \<or> (0x61 \<le> c \<and> c \<le> 0x66) \<or> (0x41 \<le> c \<and> c \<le> 0x46)"
    by (auto simp: radixDigit_def Let_def split: if_splits)
  then show ?thesis
    by (auto simp: isWhiteSpace_def ch_def word_le_nat_alt)
qed

lemma radixValue_chars:
  "radixValue r acc cs = Some n \<Longrightarrow> c \<in> set cs \<Longrightarrow> \<exists>v. radixDigit r c = Some v"
  by (induction cs arbitrary: acc) (auto split: option.splits)

lemma radixLiteral_chars:
  assumes "radixLiteral t = Some n" "c \<in> set t"
  shows "\<not> isWhiteSpace c \<and> c \<noteq> ch CHR ''/'' \<and> c \<noteq> ch CHR ''#''"
proof -
  from assms(1) obtain z p d ds where t: "t = z # p # d # ds"
    by (auto simp: radixLiteral_def split: list.splits)
  from assms(1) have z: "z = ch CHR ''0''"
    unfolding t radixLiteral_def by (auto split: if_splits)
  from assms(1) have p: "p = ch CHR ''x'' \<or> p = ch CHR ''X'' \<or> p = ch CHR ''o'' \<or> p = ch CHR ''O''
      \<or> p = ch CHR ''b'' \<or> p = ch CHR ''B''"
    unfolding t radixLiteral_def by (auto split: if_splits)
  from assms(1) obtain r where r: "radixValue r 0 (d # ds) = Some n" "r \<le> 16"
    unfolding t radixLiteral_def by (auto split: if_splits)
  have zp: "\<not> isWhiteSpace z \<and> z \<noteq> ch CHR ''/'' \<and> z \<noteq> ch CHR ''#''"
    unfolding z by (simp add: isWhiteSpace_def ch_def)
  have pp: "\<not> isWhiteSpace p \<and> p \<noteq> ch CHR ''/'' \<and> p \<noteq> ch CHR ''#''"
    using p by (auto simp: isWhiteSpace_def ch_def)
  have "c = z \<or> c = p \<or> c \<in> set (d # ds)" using assms(2) t by auto
  then show ?thesis
  proof (elim disjE)
    assume "c \<in> set (d # ds)"
    then obtain v where "radixDigit r c = Some v" using radixValue_chars [OF r(1)] by blast
    then show ?thesis using radixDigit_plain r(2) by blast
  qed (use zp pp in auto)
qed

lemma Infinity_chars:
  "c \<in> set (js ''Infinity'') \<Longrightarrow> \<not> isWhiteSpace c \<and> c \<noteq> ch CHR ''/'' \<and> c \<noteq> ch CHR ''#''"
  by (auto simp: js_def isWhiteSpace_def ch_def)

lemma Number_unfold:
  assumes "trim s \<noteq> []" "radixLiteral (trim s) = None" "scanSign (trim s) = (sg, u)" "u \<noteq> js ''Infinity''"
  shows "Number s = (case scanDecimal u of None \<Rightarrow> NaN
                     | Some (v, rest) \<Rightarrow> if rest = [] then toDouble (sg * v) else NaN)"
  using assms by (simp add: Number_def Let_def)

lemma Number_chars:
  assumes "Number s \<noteq> NaN" "c \<in> set (trim s)"
  shows "\<not> isWhiteSpace c \<and> c \<noteq> ch CHR ''/'' \<and> c \<noteq> ch CHR ''#''"
proof (cases "radixLiteral (trim s)")
  case (Some n)
  then show ?thesis using radixLiteral_chars assms(2) by blast
next
  case None
  obtain sg u where ss: "scanSign (trim s) = (sg, u)" by (cases "scanSign (trim s)")
  have ne: "trim s \<noteq> []" using assms(2) by auto
  have uok: "\<forall>c\<in>set u. \<not> isWhiteSpace c \<and> c \<noteq> ch CHR ''/'' \<and> c \<noteq> ch CHR ''#''"
  proof (cases "u = js ''Infinity''")
    case True
    then show ?thesis using Infinity_chars by blast
  next
    case False
    note nu = Number_unfold [OF ne None ss False]
    have "\<exists>v. scanDecimal u = Some (v, [])"
    proof (cases "scanDecimal u")
      case None
      with nu assms(1) show ?thesis by simp
    next
      case (Some a)
      obtain v rest where a: "a = (v, rest)" by (cases a)
      with nu assms(1) Some have "rest = []" by (simp split: if_splits)
      with Some a show ?thesis by simp
    qed
    then show ?thesis using scanDecimal_chars by blast
  qed
  have "c = ch CHR ''+'' \<or> c = ch CHR ''-'' \<or> c \<in> set u"
    using scanSign_cases [OF ss] assms(2) by auto
  then show ?thesis
  proof (elim disjE)
    assume "c = ch CHR ''+''"
    then show ?thesis by (simp add: sign_plain(1))
  next
    assume "c = ch CHR ''-''"
    then show ?thesis by (simp add: sign_plain(2))
  next
    assume "c \<in> set u"
    then show ?thesis using uok by auto
  qed
qed

lemma Number_NaN_if_ws:
  assumes "c \<in> set (trim s)" "isWhiteSpace c"
  shows "Number s = NaN"
proof (rule ccontr)
  assume "Number s \<noteq> NaN"
  from Number_chars [OF this assms(1)] assms(2) show False by simp
qed



lemma startsWith_hash: "startsWith r (js ''#'') \<longleftrightarrow> r \<noteq> [] \<and> hd r = ch CHR ''#''"
  by (cases r) (auto simp: startsWith_def js_def)

section \<open>A numeral too large for a number\<close>

lemma huge_digits: "\<forall>c\<in>set (ch CHR ''1'' # replicate 309 (ch CHR ''0'')). isDigit c"
  by (auto simp: isDigit_def ch_def)

lemma huge_pattern: "centsPattern (ch CHR ''1'' # replicate 309 (ch CHR ''0''))"
proof -
  have "centsPattern ([] @ (ch CHR ''1'' # replicate 309 (ch CHR ''0'')) @ [] @ [])"
    by (rule centsPattern_intro [OF _ _ huge_digits]) simp_all
  then show ?thesis by simp
qed

lemma huge_strip: "stripCentsUnit (ch CHR ''1'' # replicate 309 (ch CHR ''0'')) = ch CHR ''1'' # replicate 309 (ch CHR ''0'')"
  using huge_digits by (auto simp: stripCentsUnit_def filter_id_conv isDigit_not_unit)

lemma huge_Number: "Number (ch CHR ''1'' # replicate 309 (ch CHR ''0'')) = PInf"
proof -
  have "Number ([] @ (ch CHR ''1'' # replicate 309 (ch CHR ''0'')) @ []) =
          toDouble ((if ([]::jsstring) = [] then 1 else - 1)
            * (real (digitsValue (ch CHR ''1'' # replicate 309 (ch CHR ''0''))) + real (digitsValue (tl [])) / 10 ^ length (tl ([]::jsstring))))"
    by (rule Number_numeral [OF _ _ huge_digits]) simp_all
  moreover have "digitsValue ([ch CHR ''1''] @ replicate 309 (ch CHR ''0'')) = digitsValue [ch CHR ''1''] * 10 ^ 309"
    by (rule digitsValue_zeros)
  moreover have "digitsValue [ch CHR ''1''] = 1" "digitsValue [] = 0"
    by (simp_all add: digitsValue_def digitVal_def ch_def)
  moreover have "toDouble (10 ^ 309) = PInf"
    by (simp add: toDouble_def overflowBound_def)
  ultimately show ?thesis by simp
qed

section \<open>The logarithm\<close>

lemma ln3_over_ln2_lower: "84 / 53 < ln (3::real) / ln 2"
proof -
  have "(2::real) ^ 84 < 3 ^ 53" by simp
  then have "ln ((2::real) ^ 84) < ln (3 ^ 53)" by (subst ln_less_cancel_iff) simp_all
  moreover have "ln ((2::real) ^ 84) = 84 * ln 2" "ln ((3::real) ^ 53) = 53 * ln 3"
    by (simp_all only: ln_realpow of_nat_numeral)
  ultimately have "84 * ln (2::real) < 53 * ln 3" by (simp only:)
  moreover have "0 < ln (2::real)" by simp
  ultimately show ?thesis by (simp add: field_simps)
qed

lemma ln3_over_ln2_upper: "ln (3::real) / ln 2 < 317 / 200"
proof -
  have "(3::real) ^ 200 < 2 ^ 317" by simp
  then have "ln ((3::real) ^ 200) < ln (2 ^ 317)" by (subst ln_less_cancel_iff) simp_all
  moreover have "ln ((2::real) ^ 317) = 317 * ln 2" "ln ((3::real) ^ 200) = 200 * ln 3"
    by (simp_all only: ln_realpow of_nat_numeral)
  ultimately have "200 * ln (3::real) < 317 * ln 2" by (simp only:)
  moreover have "0 < ln (2::real)" by simp
  ultimately show ?thesis by (simp add: field_simps)
qed

lemma withinRange_between:
  assumes "a \<le> x" "x \<le> b" "1 / 2 ^ 64 \<le> a" "b \<le> 2 ^ 64"
  shows "withinRange x"
proof (rule withinRange_moderate)
  have "0 < a" using assms(3) by (simp add: less_le_trans [of 0 "1 / 2 ^ 64"])
  then have "\<bar>x\<bar> = x" using assms(1) by simp
  then show "1 / 2 ^ 64 \<le> \<bar>x\<bar>" "\<bar>x\<bar> \<le> 2 ^ 64" using assms by linarith+
qed

lemma ln3_withinRange: "withinRange (ln (3::real))"
  by (rule withinRange_between [OF ln3_lower ln3_upper]) simp_all

lemma log2_3_withinRange: "withinRange (ln (3::real) / ln 2)"
  by (rule withinRange_between [OF less_imp_le [OF ln3_over_ln2_lower] less_imp_le [OF ln3_over_ln2_upper]])
    simp_all

lemma cents3_bounds: "1902 \<le> 1200 * (ln (3::real) / ln 2) + 1 / 2" "1200 * (ln (3::real) / ln 2) < 1902"
  using ln3_over_ln2_lower ln3_over_ln2_upper by linarith+

lemma cents3_withinRange: "withinRange (1200 * (ln (3::real) / ln 2))"
proof (rule withinRange_between)
  show "1901 \<le> 1200 * (ln (3::real) / ln 2)" using cents3_bounds(1) by linarith
  show "1200 * (ln (3::real) / ln 2) \<le> 1902" using cents3_bounds(2) by linarith
qed simp_all

lemma log2_Fin:
  assumes "0 < r" "withinRange (ln r)" "withinRange (ln r / ln 2)"
  shows "log2 (Fin r) = Fin (log 2 r)"
proof -
  have "ln (2::real) \<noteq> 0" by simp
  then show ?thesis
    using assms by (simp add: log2_def Math_LN2_val toDouble_withinRange log_def)
qed

lemma cents_of_3: "jmul (Fin 1200) (log2 (Fin 3)) = Fin (1200 * (ln 3 / ln 2))"
proof -
  have "log2 (Fin 3) = Fin (ln 3 / ln 2)"
    using log2_Fin [OF _ ln3_withinRange log2_3_withinRange] by (simp add: log_def)
  then have "jmul (Fin 1200) (log2 (Fin 3)) = toDouble (1200 * (ln 3 / ln 2))"
    by (simp only: jmul.simps)
  then show ?thesis by (simp only: toDouble_withinRange [OF cents3_withinRange])
qed

lemma parsePeriodToCents_trim: "parsePeriodToCents (trim s) = parsePeriodToCents s"
  by (simp add: parsePeriodToCents_def trim_idem)

section \<open>Printing an integer and reading it back\<close>

lemma below_ten: "d < 10 \<Longrightarrow> d = 0 \<or> d = 1 \<or> d = 2 \<or> d = 3 \<or> d = 4 \<or> d = 5 \<or> d = 6 \<or> d = 7 \<or> d = 8 \<or> d = (9::nat)"
  by arith

lemma digitChar_isDigit: "d < 10 \<Longrightarrow> isDigit (digitChar d)"
  using below_ten [of d] by (auto simp: digitChar_def isDigit_def)

lemma digitVal_digitChar: "d < 10 \<Longrightarrow> digitVal (digitChar d) = d"
  using below_ten [of d] by (auto simp: digitChar_def digitVal_def)

lemma natToDigits_props:
  "natToDigits n \<noteq> [] \<and> (\<forall>c\<in>set (natToDigits n). isDigit c) \<and> digitsValue (natToDigits n) = n"
proof (induction n rule: natToDigits.induct)
  case (1 n)
  show ?case
  proof (cases "n < 10")
    case True
    then have "natToDigits n = [digitChar n]" by (subst natToDigits.simps) simp
    then show ?thesis
      using True by (simp add: digitChar_isDigit digitsValue_def digitVal_digitChar)
  next
    case False
    then have e: "natToDigits n = natToDigits (n div 10) @ [digitChar (n mod 10)]"
      by (subst natToDigits.simps) simp
    have m: "n mod 10 < 10" by simp
    from 1 [OF False] show ?thesis
      unfolding e by (simp add: digitsValue_snoc digitChar_isDigit [OF m] digitVal_digitChar [OF m])
  qed
qed

lemma digitsValue_Nil: "digitsValue [] = 0"
  by (simp add: digitsValue_def)

lemma toDouble_int:
  fixes n :: int
  assumes "\<bar>n\<bar> < 10 ^ 21"
  shows "toDouble (of_int n) = Fin (of_int n)"
proof (rule toDouble_withinRange, cases "n = 0")
  case True
  then show "withinRange (of_int n)" by (simp add: withinRange_def)
next
  case False
  then have "1 \<le> \<bar>n\<bar>" by simp
  then have "1 \<le> \<bar>of_int n :: real\<bar>" by (metis of_int_1_le_iff of_int_abs)
  moreover have "\<bar>of_int n :: real\<bar> < 10 ^ 21"
    using assms by (metis of_int_abs of_int_less_iff of_int_numeral of_int_power)
  moreover have "underflowBound < 1" "10 ^ 21 < overflowBound"
    by (simp_all add: underflowBound_def overflowBound_def)
  ultimately show "withinRange (of_int n)"
    unfolding withinRange_def by linarith
qed

lemma toFixed0_int:
  fixes n :: int
  assumes "\<bar>n\<bar> < 10 ^ 21"
  shows "toFixed numToStr 0 (Fin (of_int n)) =
           (if n < 0 then [ch CHR ''-''] else []) @ natToDigits (nat \<bar>n\<bar>)"
proof -
  have small: "\<not> 10 ^ 21 \<le> \<bar>of_int n :: real\<bar>"
    using assms by (metis not_le of_int_abs of_int_less_iff of_int_numeral of_int_power)
  have "\<lfloor>\<bar>of_int n :: real\<bar> + 1 / 2\<rfloor> = \<bar>n\<bar>"
    by (simp add: floor_eq_iff flip: of_int_abs)
  then have fl: "nat \<lfloor>\<bar>of_int n :: real\<bar> + 1 / 2\<rfloor> = nat \<bar>n\<bar>" by simp
  show ?thesis
    unfolding toFixed_def Let_def using small by (simp add: fl)
qed

lemma parsePeriodToCents_int_label:
  fixes n :: int
  assumes "\<bar>n\<bar> < 10 ^ 21"
  shows "parsePeriodToCents (toFixed numToStr 0 (Fin (of_int n))) = Fin (of_int n)"
proof -
  define sg :: jsstring where "sg = (if n < 0 then [ch CHR ''-''] else [])"
  define ds where "ds = natToDigits (nat \<bar>n\<bar>)"
  have l: "toFixed numToStr 0 (Fin (of_int n)) = sg @ ds"
    by (simp add: toFixed0_int [OF assms] sg_def ds_def)
  have g: "sg = [] \<or> sg = [ch CHR ''-'']" by (simp add: sg_def)
  have i: "ds \<noteq> []" "\<forall>c\<in>set ds. isDigit c" and v: "digitsValue ds = nat \<bar>n\<bar>"
    using natToDigits_props [of "nat \<bar>n\<bar>"] by (simp_all add: ds_def)
  have cp: "centsPattern (sg @ ds @ [] @ [])"
    by (rule centsPattern_intro [OF g i]) simp_all
  then have cp': "centsPattern (sg @ ds)" by simp
  have st: "stripCentsUnit (sg @ ds @ [] @ []) = sg @ ds @ []"
    by (rule stripCentsUnit_shape [OF g i(2)]) simp_all
  have nm: "Number (sg @ ds @ []) =
      toDouble ((if sg = [] then 1 else - 1)
                * (real (digitsValue ds) + real (digitsValue (tl [])) / 10 ^ length (tl ([]::jsstring))))"
    by (rule Number_numeral [OF g i]) simp
  have val: "(if sg = [] then 1 else - 1) * real (nat \<bar>n\<bar>) = (of_int n :: real)"
    by (simp add: sg_def)
  have "Number (stripCentsUnit (sg @ ds)) = toDouble (of_int n)"
    using st nm val by (simp add: v digitsValue_Nil)
  then have "Number (stripCentsUnit (sg @ ds)) = Fin (of_int n)"
    by (simp add: toDouble_int [OF assms])
  then show ?thesis
    unfolding l parsePeriodToCents_def Let_def centsPattern_trim [OF cp']
    using cp' centsPattern_nonempty [OF cp'] by simp
qed

section \<open>The claims\<close>

text \<open>
  C1 (the code departs from the claim): a token that \<open>parseCentsOrRatioToCents\<close>
  returns does not always have finite cents. The ratio \<open>0/1\<close> is accepted and its
  cents are \<open>-Infinity\<close>; the ratio \<open>-1/2\<close> is accepted and its cents are \<open>NaN\<close>.
\<close>

theorem C1_ratio_not_finite:
  "parseCentsOrRatioToCents (js ''0/1'') = Some \<lparr>cents = NInf, raw = js ''0/1'', type = Ratio\<rparr>
   \<and> parseCentsOrRatioToCents (js ''-1/2'') = Some \<lparr>cents = NaN, raw = js ''-1/2'', type = Ratio\<rparr>"
proof -
  have "0 \<le> ln (2::real)" by simp
  then show ?thesis
    by (simp add: str_defs num_defs parseCentsOrRatioToCents_def parseRatio_def log2_def Math_LN2_val
        infOfSign_def)
qed

text \<open>
  C2, as stated, fails: with period 1200 the interval line \<open>-300\<close> is placed at
  \<open>-90\<close> degrees, outside \<open>[0, 360)\<close>.
\<close>

theorem C2_counterexample:
  "\<not> (\<forall>it \<in> set (buildItems (\<lambda>x. []) (js ''1200'') (js ''-300'') (Fin 200) (Fin 200) (Fin 140) (Fin 1200)).
        \<exists>a. deg it = Fin a \<and> 0 \<le> a \<and> a < 360)"
proof -
  have p: "parseCentsOrRatioToCents (js ''-300'') = Some \<lparr>cents = Fin (- 300), raw = js ''-300'', type = Cents\<rparr>"
    by (simp add: str_defs num_defs parseCentsOrRatioToCents_def)
  have sl: "splitLines (js ''-300'') = [js ''-300'']"
    by (simp add: js_def ch_def LF_def CR_def)
  have a: "computeAngle (Fin (- 300)) (Fin 1200) = Fin (- 90)"
    by (simp add: computeAngle_def toDouble_withinRange withinRange_moderate fmod_def trunc_def
        ceiling_eq_iff floor_eq_iff)
  have "\<exists>it \<in> set (buildItems (\<lambda>x. []) (js ''1200'') (js ''-300'') (Fin 200) (Fin 200) (Fin 140) (Fin 1200)).
          deg it = Fin (- 90)"
    by (simp add: buildItems_def sl p a Let_def)
  then show ?thesis by force
qed

text \<open>
  C2, amended: for every item that \<open>buildItems\<close> produces under a finite non-zero
  \<open>periodCents\<close>, if \<open>(cents / periodCents) * 360\<close> is a finite number \<open>q\<close>, then
  \<open>deg\<close> is the truncating remainder of \<open>q\<close> by 360 (the operator \<open>%\<close>, which keeps
  the sign of \<open>q\<close>): it lies strictly between \<open>-360\<close> and \<open>360\<close>, in \<open>[0, 360)\<close>
  when \<open>q \<ge> 0\<close> and in \<open>(-360, 0]\<close> when \<open>q \<le> 0\<close>.
\<close>

theorem C2_angle_range:
  assumes "isFinite periodCents" and "periodCents \<noteq> Fin 0"
    and "it \<in> set (buildItems numToStr periodInputValue intervalsText cx cy radius periodCents)"
    and "jmul (jdiv (cents it) periodCents) (Fin 360) = Fin q"
  shows "deg it = Fin (fmod q 360) \<and> - 360 < fmod q 360 \<and> fmod q 360 < 360
       \<and> (0 \<le> q \<longrightarrow> 0 \<le> fmod q 360) \<and> (q \<le> 0 \<longrightarrow> fmod q 360 \<le> 0)"
  using buildItems_deg [OF assms(1,2,3)] computeAngle_Fin [OF assms(4)] fmod_360_bounds [of q]
  by simp

theorem C2_angle_range_witness:
  "deg (buildItems (\<lambda>x. []) (js ''1200'') (js ''-300'') (Fin 200) (Fin 200) (Fin 140) (Fin 1200) ! 1)
     = Fin (fmod (- 90) 360)
   \<and> - 360 < fmod (- 90) 360 \<and> fmod (- 90) 360 \<le> 0"
proof -
  let ?items = "buildItems (\<lambda>x. []) (js ''1200'') (js ''-300'') (Fin 200) (Fin 200) (Fin 140) (Fin 1200)"
  have p: "parseCentsOrRatioToCents (js ''-300'') = Some \<lparr>cents = Fin (- 300), raw = js ''-300'', type = Cents\<rparr>"
    by (simp add: str_defs num_defs parseCentsOrRatioToCents_def)
  have sl: "splitLines (js ''-300'') = [js ''-300'']"
    by (simp add: js_def ch_def LF_def CR_def)
  have len: "length ?items = 2"
    by (simp add: buildItems_def sl p Let_def)
  have c: "cents (?items ! 1) = Fin (- 300)"
    by (simp add: buildItems_def sl p Let_def)
  have h1: "isFinite (Fin 1200)" and h2: "Fin 1200 \<noteq> Fin 0" by simp_all
  have h3: "?items ! 1 \<in> set ?items" using len by (intro nth_mem) simp
  have h4: "jmul (jdiv (cents (?items ! 1)) (Fin 1200)) (Fin 360) = Fin (- 90)"
    using c by (simp add: toDouble_withinRange withinRange_moderate)
  from C2_angle_range [OF h1 h2 h3 h4] show ?thesis by simp
qed






text \<open>
  C5, as stated, fails: the digit 1 followed by 309 zeros matches the cents grammar, its
  value is too large for a finite number, and the token is rejected.
\<close>

theorem C5_counterexample:
  "centsPattern (ch CHR ''1'' # replicate 309 (ch CHR ''0''))
   \<and> parseCentsOrRatioToCents (ch CHR ''1'' # replicate 309 (ch CHR ''0'')) = None"
proof -
  let ?t = "ch CHR ''1'' # replicate 309 (ch CHR ''0'')"
  have tr: "trim ?t = ?t" by (rule centsPattern_trim [OF huge_pattern])
  have rw: "removeWhiteSpace ?t = ?t" by (rule centsPattern_removeWhiteSpace [OF huge_pattern])
  have nh: "\<not> startsWith ?t (js ''#'')" by (simp add: startsWith_hash ch_def)
  have ns: "\<not> includesChar ?t (ch CHR ''/'')"
    using centsPattern_no_slash [OF huge_pattern] by (simp add: includesChar_def)
  have pr: "parseRatio ?t = None"
    unfolding parseRatio_def Let_def tr using ns by (simp add: huge_Number)
  have "parseCentsOrRatioToCents ?t = None"
    unfolding parseCentsOrRatioToCents_def Let_def tr rw huge_strip
    using nh by (simp add: huge_Number pr)
  with huge_pattern show ?thesis by simp
qed

text \<open>
  C5, amended: for every token whose trimmed text matches the grammar (an optional
  minus sign, digits, an optional fraction, an optional trailing \<open>c\<close>, \<open>C\<close> or
  cent sign) and whose numeric value is below \<open>2^1024 - 2^970\<close> in magnitude,
  \<open>parseCentsOrRatioToCents\<close> returns a token of kind Cents whose cents are the
  numeric value of the text with the unit stripped, a finite number, and whose label
  is the trimmed text.
\<close>

theorem C5_cents_token:
  assumes "centsPattern (trim tok)"
    and "\<bar>decimalValue (stripCentsUnit (trim tok))\<bar> < overflowBound"
  shows "parseCentsOrRatioToCents tok =
           Some \<lparr>cents = toDouble (decimalValue (stripCentsUnit (trim tok))), raw = trim tok, type = Cents\<rparr>
       \<and> isFinite (toDouble (decimalValue (stripCentsUnit (trim tok))))"
proof -
  let ?raw = "trim tok"
  have ne: "?raw \<noteq> []" by (rule centsPattern_nonempty [OF assms(1)])
  then have "hd ?raw \<in> set ?raw" by simp
  then have "hd ?raw \<noteq> ch CHR ''#''" using centsPattern_no_hash [OF assms(1)] by auto
  then have nh: "\<not> startsWith ?raw (js ''#'')" by (simp add: startsWith_hash)
  have rw: "removeWhiteSpace ?raw = ?raw" by (rule centsPattern_removeWhiteSpace [OF assms(1)])
  have n: "Number (stripCentsUnit ?raw) = toDouble (decimalValue (stripCentsUnit ?raw))"
    by (rule Number_centsPattern [OF assms(1)])
  have fin: "isFinite (toDouble (decimalValue (stripCentsUnit ?raw)))"
    using assms(2) by (simp add: toDouble_finite_iff)
  show ?thesis
    unfolding parseCentsOrRatioToCents_def Let_def rw n
    using ne nh fin assms(1) by simp
qed

theorem C5_cents_token_witness:
  "parseCentsOrRatioToCents (js '' -7.5c '') = Some \<lparr>cents = Fin (- (15 / 2)), raw = js ''-7.5c'', type = Cents\<rparr>"
proof -
  have t: "trim (js '' -7.5c '') = js ''-7.5c''" by (simp add: str_defs)
  have h1: "centsPattern (trim (js '' -7.5c ''))" unfolding t by (simp add: str_defs)
  have s: "stripCentsUnit (js ''-7.5c'') = js ''-7.5''" by (simp add: str_defs)
  have d: "decimalValue (js ''-7.5'') = - (15 / 2)"
    by (simp add: decimalValue_def str_defs)
  have h2: "\<bar>decimalValue (stripCentsUnit (trim (js '' -7.5c '')))\<bar> < overflowBound"
    unfolding t s d by (simp add: overflowBound_def)
  have v: "toDouble (- (15 / 2)) = Fin (- (15 / 2))"
    by (simp add: toDouble_withinRange withinRange_moderate)
  from C5_cents_token [OF h1 h2] show ?thesis unfolding t s d v by simp
qed

text \<open>
  C6: for every period text, every intervals text and every finite non-zero
  \<open>periodCents\<close>, the first element that \<open>buildItems\<close> returns is the Period item:
  cents 0, angle 0, at \<open>(cx, cy - radius)\<close>, labelled with the normalized period
  label, whatever the interval lines are.
\<close>

theorem C6_period_first:
  assumes "isFinite periodCents" and "periodCents \<noteq> Fin 0"
  shows "\<exists>rest. buildItems numToStr periodInputValue intervalsText cx cy radius periodCents =
           \<lparr>cents = Fin 0, raw = normalizePeriodLabel numToStr periodInputValue periodCents,
            type = Period, deg = Fin 0, px = cx, py = jsub cy radius\<rparr> # rest"
  by (simp add: buildItems_def)

theorem C6_period_first_witness:
  "\<exists>rest. buildItems (\<lambda>x. []) (js ''2/1'') (js ''700'') (Fin 200) (Fin 200) (Fin 140) (Fin 1200) =
     \<lparr>cents = Fin 0, raw = js ''2/1'', type = Period, deg = Fin 0, px = Fin 200, py = Fin 60\<rparr> # rest"
proof -
  have h1: "isFinite (Fin 1200)" and h2: "Fin 1200 \<noteq> Fin 0" by simp_all
  have l: "normalizePeriodLabel (\<lambda>x. []) (js ''2/1'') (Fin 1200) = js ''2/1''"
    by (simp add: normalizePeriodLabel_def str_defs)
  have y: "jsub (Fin 200) (Fin 140) = Fin 60"
    by (simp add: jsub_def toDouble_withinRange withinRange_moderate)
  from C6_period_first [OF h1 h2, of "\<lambda>x. []" "js ''2/1''" "js ''700''" "Fin 200" "Fin 200" "Fin 140"]
  show ?thesis by (simp only: l y)
qed

text \<open>
  C7, as stated, fails: the period \<open>+3\<close> is read as the ratio 3, that is
  \<open>1200 * log2(3)\<close> cents (about 1901.955); its label is the rounded \<open>1902\<close>,
  which parses to 1902 cents.
\<close>

theorem C7_counterexample:
  "isFinite (parsePeriodToCents (js ''+3''))
   \<and> parsePeriodToCents (normalizePeriodLabel (\<lambda>x. []) (js ''+3'') (parsePeriodToCents (js ''+3'')))
       \<noteq> parsePeriodToCents (js ''+3'')"
proof -
  define v :: real where "v = 1200 * (ln 3 / ln 2)"
  have lo: "1902 \<le> v + 1 / 2" and hi: "v < 1902"
    unfolding v_def by (rule cents3_bounds)+
  have ne: "js ''+3'' \<noteq> []" by (simp add: js_def)
  have ni: "\<not> includesChar (js ''+3'') (ch CHR ''/'')" by (simp add: str_defs)
  have t: "trim (js ''+3'') = js ''+3''" by (simp add: str_defs)
  have np: "\<not> centsPattern (js ''+3'')" by (simp add: str_defs)
  have n: "Number (js ''+3'') = Fin 3" by (simp add: str_defs num_defs)
  have pr: "parseRatio (js ''+3'') = Some (Fin 3)"
    unfolding parseRatio_def Let_def t using ne ni by (simp add: n)
  have p: "parsePeriodToCents (js ''+3'') = Fin v"
    unfolding parsePeriodToCents_def Let_def t using ne by (simp add: np pr cents_of_3 v_def)
  have small: "\<not> 10 ^ 21 \<le> \<bar>v\<bar>" using lo hi by simp
  have pos: "\<not> v < 0" using lo by simp
  have fl': "\<lfloor>v + 1 / 2\<rfloor> = 1902"
    using lo hi by (simp add: floor_eq_iff)
  have nfl: "nat \<lfloor>v + 1 / 2\<rfloor> = 1902"
    by (simp only: fl')
  have dg: "natToDigits 1902 = js ''1902''"
    by (simp add: natToDigits.simps digitChar_def js_def ch_def)
  have tf: "toFixed (\<lambda>x. []) 0 (Fin v) = js ''1902''"
    unfolding toFixed_def Let_def using small pos by (simp add: nfl dg)
  have l: "normalizePeriodLabel (\<lambda>x. []) (js ''+3'') (Fin v) = js ''1902''"
    unfolding normalizePeriodLabel_def Let_def t using np ni ne by (simp add: tf)
  have r: "parsePeriodToCents (js ''1902'') = Fin 1902"
    by (simp add: parsePeriodToCents_def str_defs num_defs)
  show ?thesis unfolding p l r using hi by simp
qed

text \<open>
  C7, amended: for every period input whose parse is finite and whose trimmed text
  contains \<open>/\<close>, or matches the cents grammar, or whose cents are a whole number
  below \<open>10^21\<close> in magnitude, parsing the label that \<open>normalizePeriodLabel\<close>
  produces for it gives the same cents.
\<close>

theorem C7_label_reparse:
  assumes "isFinite (parsePeriodToCents s)"
    and "includesChar (trim s) (ch CHR ''/'') \<or> centsPattern (trim s)
         \<or> (\<exists>n::int. parsePeriodToCents s = Fin (of_int n) \<and> \<bar>n\<bar> < 10 ^ 21)"
  shows "parsePeriodToCents (normalizePeriodLabel numToStr s (parsePeriodToCents s)) = parsePeriodToCents s"
proof -
  have ne: "trim s \<noteq> []"
    using assms(1) by (auto simp: parsePeriodToCents_def)
  show ?thesis
  proof (cases "includesChar (trim s) (ch CHR ''/'')")
    case True
    then have "normalizePeriodLabel numToStr s (parsePeriodToCents s) = trim s"
      using ne by (simp add: normalizePeriodLabel_def)
    then show ?thesis by (simp add: parsePeriodToCents_trim)
  next
    case False
    show ?thesis
    proof (cases "centsPattern (trim s)")
      case True
      let ?u = "stripCentsUnit (trim s)"
      have cu: "centsPattern ?u" by (rule centsPattern_strip [OF True])
      have tu: "trim ?u = ?u" by (rule centsPattern_trim [OF cu])
      have l: "normalizePeriodLabel numToStr s pc = ?u" for pc
        using ne False True by (simp add: normalizePeriodLabel_def tu)
      have "parsePeriodToCents ?u = Number (stripCentsUnit ?u)"
        using cu centsPattern_nonempty [OF cu] by (simp add: parsePeriodToCents_def tu)
      moreover have "parsePeriodToCents s = Number ?u"
        using ne True by (simp add: parsePeriodToCents_def)
      ultimately show ?thesis by (simp add: l stripCentsUnit_idem)
    next
      case np: False
      with False assms(2) obtain n :: int where n: "parsePeriodToCents s = Fin (of_int n)" "\<bar>n\<bar> < 10 ^ 21"
        by blast
      have l: "normalizePeriodLabel numToStr s pc = toFixed numToStr 0 pc" for pc
        using False np by (simp add: normalizePeriodLabel_def Let_def)
      show ?thesis
        unfolding l n(1) by (rule parsePeriodToCents_int_label [OF n(2)])
    qed
  qed
qed

theorem C7_label_reparse_witness:
  "parsePeriodToCents (normalizePeriodLabel (\<lambda>x. []) (js ''700c'') (parsePeriodToCents (js ''700c'')))
     = parsePeriodToCents (js ''700c'')
   \<and> normalizePeriodLabel (\<lambda>x. []) (js ''700c'') (parsePeriodToCents (js ''700c'')) = js ''700''
   \<and> parsePeriodToCents (js ''700c'') = Fin 700
   \<and> parsePeriodToCents (normalizePeriodLabel (\<lambda>x. []) (js ''+2'') (parsePeriodToCents (js ''+2'')))
     = parsePeriodToCents (js ''+2'')
   \<and> parsePeriodToCents (js ''+2'') = Fin 1200"
proof -
  have p: "parsePeriodToCents (js ''700c'') = Fin 700"
    by (simp add: parsePeriodToCents_def str_defs num_defs)
  have h1: "isFinite (parsePeriodToCents (js ''700c''))" by (simp add: p)
  have "centsPattern (trim (js ''700c''))" by (simp add: str_defs)
  then have h2: "includesChar (trim (js ''700c'')) (ch CHR ''/'') \<or> centsPattern (trim (js ''700c''))
      \<or> (\<exists>n::int. parsePeriodToCents (js ''700c'') = Fin (of_int n) \<and> \<bar>n\<bar> < 10 ^ 21)"
    by simp
  have l: "normalizePeriodLabel (\<lambda>x. []) (js ''700c'') (parsePeriodToCents (js ''700c'')) = js ''700''"
    by (simp add: normalizePeriodLabel_def str_defs)
  have n2: "Number (js ''+2'') = Fin 2" by (simp add: str_defs num_defs)
  have t2: "trim (js ''+2'') = js ''+2''" by (simp add: str_defs)
  have ne2: "js ''+2'' \<noteq> []" by (simp add: js_def)
  have ni2: "\<not> includesChar (js ''+2'') (ch CHR ''/'')" by (simp add: str_defs)
  have np2: "\<not> centsPattern (js ''+2'')" by (simp add: str_defs)
  have pr2: "parseRatio (js ''+2'') = Some (Fin 2)"
    unfolding parseRatio_def Let_def t2 using ne2 ni2 by (simp add: n2)
  have lg: "log2 (Fin 2) = Fin 1"
    by (simp add: log2_def Math_LN2_val toDouble_withinRange ln2_withinRange withinRange_moderate)
  have p2: "parsePeriodToCents (js ''+2'') = Fin 1200"
    unfolding parsePeriodToCents_def Let_def t2 using ne2 np2
    by (simp add: pr2 lg toDouble_withinRange withinRange_moderate)
  have g1: "isFinite (parsePeriodToCents (js ''+2''))" by (simp add: p2)
  have "parsePeriodToCents (js ''+2'') = Fin (of_int 1200) \<and> \<bar>1200 :: int\<bar> < 10 ^ 21"
    by (simp add: p2)
  then have g2: "includesChar (trim (js ''+2'')) (ch CHR ''/'') \<or> centsPattern (trim (js ''+2''))
      \<or> (\<exists>n::int. parsePeriodToCents (js ''+2'') = Fin (of_int n) \<and> \<bar>n\<bar> < 10 ^ 21)"
    by blast
  from C7_label_reparse [OF h1 h2, of "\<lambda>x. []"] C7_label_reparse [OF g1 g2, of "\<lambda>x. []"] l p p2
  show ?thesis by simp
qed

text \<open>
  C8: with an available panel of 400 by 400, size multiplier 1.0 and labels shown at
  offset 35, the radius is \<open>max(20, 400/2 - 60) = 140\<close> and the export frame size is
  \<open>max(300, ceil((140 + 35 + 30) * 2)) = 410\<close>.
\<close>

theorem C8_export_frame_scenario:
  assumes "containerRect d = \<lparr>width = Fin 400, height = Fin 400\<rparr>"
    and "parseFloat (circleSize d) = Fin 1"
    and "showLabels d"
    and "labelDistance d = Some (js ''35'')"
  shows "dimRadius (calculateDimensions (containerRect d) (parseFloat (circleSize d))) = Fin 140
       \<and> expRadius (calculateExportDimensions d) = Fin 140
       \<and> size (calculateExportDimensions d) = Fin 410"
proof -
  have ld: "labelDistanceValue d = Fin 35"
    using assms(4) by (simp add: labelDistanceValue_def str_defs num_defs)
  have r: "dimRadius (calculateDimensions \<lparr>width = Fin 400, height = Fin 400\<rparr> (Fin 1)) = Fin 140"
    by (simp add: calculateDimensions_def const_defs jsub_def toDouble_withinRange withinRange_moderate Let_def)
  show ?thesis
    using assms(1,2,3) ld r
    by (simp add: calculateExportDimensions_def const_defs toDouble_withinRange withinRange_moderate Let_def)
qed

theorem C8_export_frame_scenario_witness:
  "dimRadius (calculateDimensions (containerRect exampleDom) (parseFloat (circleSize exampleDom))) = Fin 140
   \<and> expRadius (calculateExportDimensions exampleDom) = Fin 140
   \<and> size (calculateExportDimensions exampleDom) = Fin 410"
proof -
  have a: "containerRect exampleDom = \<lparr>width = Fin 400, height = Fin 400\<rparr>"
    by (simp add: exampleDom_def)
  have b: "parseFloat (circleSize exampleDom) = Fin 1"
    by (simp add: exampleDom_def str_defs num_defs)
  have c: "showLabels exampleDom" by (simp add: exampleDom_def)
  have e: "labelDistance exampleDom = Some (js ''35'')" by (simp add: exampleDom_def)
  show ?thesis by (rule C8_export_frame_scenario [OF a b c e])
qed

text \<open>
  C9: for every page whose period text does not parse, or parses to zero or to a number
  that is not finite, \<open>createExportSVG\<close> returns an \<open>svg\<close> element whose only child
  is the white background rectangle, and after \<open>draw\<close> the only child of the live
  \<open>svg\<close> element is the white background rectangle. Both functions return a value
  for every such page: no branch of either raises.
\<close>

theorem C9_invalid_period_blank:
  assumes "\<not> isFinite (parsePeriodToCents (periodInput d)) \<or> parsePeriodToCents (periodInput d) = Fin 0"
  shows "(\<exists>sz vb. createExportSVG numToStr d =
            Element ''svg'' [(''width'', sz), (''height'', sz), (''viewBox'', vb)] []
              [Element ''rect'' [(''x'', numToStr 0), (''y'', numToStr 0), (''width'', sz),
                                 (''height'', sz), (''fill'', js ''white'')] [] []])
       \<and> (\<exists>w h. svgChildren (draw numToStr d) =
              [Element ''rect'' [(''x'', numToStr 0), (''y'', numToStr 0), (''width'', w),
                                 (''height'', h), (''fill'', js ''white''), (''stroke'', js ''none'')] [] []])"
proof
  have "createExportSVG numToStr d =
            Element ''svg''
              [(''width'', Number_toString numToStr (size (calculateExportDimensions d))),
               (''height'', Number_toString numToStr (size (calculateExportDimensions d))),
               (''viewBox'', viewBoxOf numToStr (size (calculateExportDimensions d)) (size (calculateExportDimensions d)))] []
              [Element ''rect''
                 [(''x'', numToStr 0), (''y'', numToStr 0),
                  (''width'', Number_toString numToStr (size (calculateExportDimensions d))),
                  (''height'', Number_toString numToStr (size (calculateExportDimensions d))),
                  (''fill'', js ''white'')] [] []]"
    using assms
    by (simp add: createExportSVG_def createSVGElement_def valToString_def Number_toString_def Let_def)
  then show "\<exists>sz vb. createExportSVG numToStr d =
            Element ''svg'' [(''width'', sz), (''height'', sz), (''viewBox'', vb)] []
              [Element ''rect'' [(''x'', numToStr 0), (''y'', numToStr 0), (''width'', sz),
                                 (''height'', sz), (''fill'', js ''white'')] [] []]"
    by blast
  show "\<exists>w h. svgChildren (draw numToStr d) =
              [Element ''rect'' [(''x'', numToStr 0), (''y'', numToStr 0), (''width'', w),
                                 (''height'', h), (''fill'', js ''white''), (''stroke'', js ''none'')] [] []]"
    using assms
    by (simp add: draw_def clearSVG_def drawBackground_def createSVGElement_def valToString_def
        Number_toString_def Let_def)
qed

theorem C9_invalid_period_blank_witness:
  "(\<exists>sz vb. createExportSVG (\<lambda>x. js ''n'') (exampleDom\<lparr>periodInput := js ''0''\<rparr>) =
            Element ''svg'' [(''width'', sz), (''height'', sz), (''viewBox'', vb)] []
              [Element ''rect'' [(''x'', js ''n''), (''y'', js ''n''), (''width'', sz),
                                 (''height'', sz), (''fill'', js ''white'')] [] []])
   \<and> (\<exists>w h. svgChildren (draw (\<lambda>x. js ''n'') (exampleDom\<lparr>periodInput := js ''0''\<rparr>)) =
              [Element ''rect'' [(''x'', js ''n''), (''y'', js ''n''), (''width'', w),
                                 (''height'', h), (''fill'', js ''white''), (''stroke'', js ''none'')] [] []])"
proof -
  have "parsePeriodToCents (periodInput (exampleDom\<lparr>periodInput := js ''0''\<rparr>)) = Fin 0"
    by (simp add: parsePeriodToCents_def str_defs num_defs)
  then have h: "\<not> isFinite (parsePeriodToCents (periodInput (exampleDom\<lparr>periodInput := js ''0''\<rparr>)))
      \<or> parsePeriodToCents (periodInput (exampleDom\<lparr>periodInput := js ''0''\<rparr>)) = Fin 0"
    by simp
  from C9_invalid_period_blank [OF h, of "\<lambda>x. js ''n''"] show ?thesis .
qed

text \<open>
  C10, as stated, fails: the digit 1, a space and 309 zeros is cents-like with interior
  white space, but the interval parser rejects it, its value being too large for a
  finite number.
\<close>

theorem C10_counterexample:
  "centsPattern (removeWhiteSpace (trim (ch CHR ''1'' # ch CHR '' '' # replicate 309 (ch CHR ''0''))))
   \<and> (\<exists>c\<in>set (trim (ch CHR ''1'' # ch CHR '' '' # replicate 309 (ch CHR ''0''))). isWhiteSpace c)
   \<and> parseCentsOrRatioToCents (ch CHR ''1'' # ch CHR '' '' # replicate 309 (ch CHR ''0'')) = None"
proof -
  let ?t = "ch CHR ''1'' # ch CHR '' '' # replicate 309 (ch CHR ''0'')"
  let ?u = "ch CHR ''1'' # replicate 309 (ch CHR ''0'')"
  have ws: "isWhiteSpace (ch CHR '' '')" "\<not> isWhiteSpace (ch CHR ''1'')" "\<not> isWhiteSpace (ch CHR ''0'')"
    by (simp_all add: isWhiteSpace_def ch_def)
  have tr: "trim ?t = ?t" by (rule trim_noop) (simp add: ws)
  have rw: "removeWhiteSpace ?t = ?u" by (simp add: removeWhiteSpace_def ws)
  have nh: "\<not> startsWith ?t (js ''#'')" by (simp add: startsWith_hash ch_def)
  have ns: "\<not> includesChar ?t (ch CHR ''/'')" by (simp add: includesChar_def ch_def)
  have "ch CHR '' '' \<in> set (trim ?t)" unfolding tr by simp
  then have nan: "Number ?t = NaN" using ws(1) by (rule Number_NaN_if_ws)
  have pr: "parseRatio ?t = None"
    unfolding parseRatio_def Let_def tr using ns by (simp add: nan)
  have "parseCentsOrRatioToCents ?t = None"
    unfolding parseCentsOrRatioToCents_def Let_def tr rw huge_strip
    using nh by (simp add: huge_Number pr)
  moreover have "\<exists>c\<in>set (trim ?t). isWhiteSpace c" unfolding tr using ws(1) by simp
  ultimately show ?thesis unfolding tr rw using huge_pattern by simp
qed

text \<open>
  C10, amended: the interval parser removes all white space inside a token before it
  matches the cents grammar and the period parser only trims. For every token that
  matches the grammar once its white space is removed, that has white space inside its
  trimmed text, and whose numeric value is below \<open>2^1024 - 2^970\<close> in magnitude,
  \<open>parseCentsOrRatioToCents\<close> returns a Cents token with that value and
  \<open>parsePeriodToCents\<close> returns NaN.
\<close>

theorem C10_interior_whitespace:
  assumes "centsPattern (removeWhiteSpace (trim tok))"
    and "\<exists>c\<in>set (trim tok). isWhiteSpace c"
    and "\<bar>decimalValue (stripCentsUnit (removeWhiteSpace (trim tok)))\<bar> < overflowBound"
  shows "parseCentsOrRatioToCents tok =
           Some \<lparr>cents = toDouble (decimalValue (stripCentsUnit (removeWhiteSpace (trim tok)))),
                 raw = trim tok, type = Cents\<rparr>
       \<and> parsePeriodToCents tok = NaN"
proof -
  let ?raw = "trim tok"
  let ?cl = "removeWhiteSpace ?raw"
  have ne: "?raw \<noteq> []" using assms(2) by auto
  have hdr: "\<not> isWhiteSpace (hd ?raw)" by (rule trim_hd [OF ne])
  have "hd ?raw \<in> set ?cl" using ne hdr by (simp add: removeWhiteSpace_def)
  then have "hd ?raw \<noteq> ch CHR ''#''" using centsPattern_no_hash [OF assms(1)] by auto
  then have nh: "\<not> startsWith ?raw (js ''#'')" by (simp add: startsWith_hash)
  have n: "Number (stripCentsUnit ?cl) = toDouble (decimalValue (stripCentsUnit ?cl))"
    by (rule Number_centsPattern [OF assms(1)])
  have fin: "isFinite (toDouble (decimalValue (stripCentsUnit ?cl)))"
    using assms(3) by (simp add: toDouble_finite_iff)
  have first: "parseCentsOrRatioToCents tok =
      Some \<lparr>cents = toDouble (decimalValue (stripCentsUnit ?cl)), raw = ?raw, type = Cents\<rparr>"
    unfolding parseCentsOrRatioToCents_def Let_def n
    using ne nh fin assms(1) by simp
  obtain c where c: "c \<in> set ?raw" "isWhiteSpace c" using assms(2) by blast
  have np: "\<not> centsPattern ?raw" using c centsPattern_no_ws by blast
  have "ch CHR ''/'' \<notin> set ?raw"
  proof
    assume "ch CHR ''/'' \<in> set ?raw"
    then have "ch CHR ''/'' \<in> set ?cl" by (simp add: removeWhiteSpace_def sign_plain ch_simps)
    then show False using centsPattern_no_slash [OF assms(1)] by simp
  qed
  then have ns: "\<not> includesChar ?raw (ch CHR ''/'')" by (simp add: includesChar_def)
  have "c \<in> set (trim ?raw)" using c(1) by (simp add: trim_idem)
  then have nan: "Number ?raw = NaN" using c(2) by (rule Number_NaN_if_ws)
  have pr: "parseRatio ?raw = None"
    unfolding parseRatio_def Let_def trim_idem using ns ne by (simp add: nan)
  have second: "parsePeriodToCents tok = NaN"
    unfolding parsePeriodToCents_def Let_def using ne np by (simp add: pr)
  from first second show ?thesis by simp
qed

theorem C10_interior_whitespace_witness:
  "parseCentsOrRatioToCents (js ''7 00c'') = Some \<lparr>cents = Fin 700, raw = js ''7 00c'', type = Cents\<rparr>
   \<and> parsePeriodToCents (js ''7 00c'') = NaN"
proof -
  have t: "trim (js ''7 00c'') = js ''7 00c''" by (simp add: str_defs)
  have r: "removeWhiteSpace (js ''7 00c'') = js ''700c''" by (simp add: str_defs)
  have s: "stripCentsUnit (js ''700c'') = js ''700''" by (simp add: str_defs)
  have d: "decimalValue (js ''700'') = 700" by (simp add: decimalValue_def str_defs)
  have v: "toDouble 700 = Fin 700" by (simp add: toDouble_withinRange withinRange_moderate)
  have h1: "centsPattern (removeWhiteSpace (trim (js ''7 00c'')))" unfolding t r by (simp add: str_defs)
  have h2: "\<exists>c\<in>set (trim (js ''7 00c'')). isWhiteSpace c" unfolding t by (simp add: str_defs)
  have h3: "\<bar>decimalValue (stripCentsUnit (removeWhiteSpace (trim (js ''7 00c''))))\<bar> < overflowBound"
    unfolding t r s d by (simp add: overflowBound_def)
  from C10_interior_whitespace [OF h1 h2 h3] show ?thesis unfolding t r s d v by simp
qed

end
